theory Spec2Isabelle
  imports Main "HOL-Library.AList" "HOL-Library.Sublist"
begin

section \<open>Values, dictionaries and exceptions\<close>

text \<open>
  The client of \<^verbatim>\<open>universal_client.py\<close> moves Python values that come from parsed JSON
  bodies and from the caller's parameter dictionaries. They are modelled by one datatype;
  \<open>JNull\<close> is Python's \<^verbatim>\<open>None\<close>. The numbers of a JSON body and of the caller's
  parameters are integers.
\<close>

datatype json =
    JNull
  | JBool bool
  | JInt int
  | JStr string
  | JList "json list"
  | JObj "(string \<times> json) list"

text \<open>
  A Python \<^verbatim>\<open>dict\<close> with string keys is an association list in insertion order:
  \<^verbatim>\<open>d[k] = v\<close> replaces the value in place or appends the key, which is \<open>AList.update\<close>.
\<close>

type_synonym 'v dict = "(string \<times> 'v) list"

definition dict_get :: "'v dict \<Rightarrow> string \<Rightarrow> 'v \<Rightarrow> 'v" where
  \<comment> \<open>\<^verbatim>\<open>d.get(k, default)\<close>\<close>
  "dict_get d k dflt = (case map_of d k of None \<Rightarrow> dflt | Some v \<Rightarrow> v)"

definition dict_set :: "'v dict \<Rightarrow> string \<Rightarrow> 'v \<Rightarrow> 'v dict" where
  \<comment> \<open>\<^verbatim>\<open>d[k] = v\<close>\<close>
  "dict_set d k v = AList.update k v d"

definition dict_update :: "'v dict \<Rightarrow> 'v dict \<Rightarrow> 'v dict" where
  \<comment> \<open>\<^verbatim>\<open>d.update(e)\<close>: the entries of \<open>e\<close> are stored one by one, in order\<close>
  "dict_update d e = fold (\<lambda>(k, v) acc. dict_set acc k v) e d"

fun truthy :: "json \<Rightarrow> bool" where
  \<comment> \<open>Python's truth value of an object, as \<^verbatim>\<open>if x\<close>, \<^verbatim>\<open>not x\<close> and \<^verbatim>\<open>while x\<close> test it\<close>
  "truthy JNull = False"
| "truthy (JBool b) = b"
| "truthy (JInt n) = (n \<noteq> 0)"
| "truthy (JStr s) = (s \<noteq> [])"
| "truthy (JList xs) = (xs \<noteq> [])"
| "truthy (JObj kvs) = (kvs \<noteq> [])"

fun py_int :: "json \<Rightarrow> int option" where
  \<comment> \<open>the values that take part in integer arithmetic and comparison (\<^verbatim>\<open>bool\<close> is a
      subclass of \<^verbatim>\<open>int\<close>); for every other value \<^verbatim>\<open>+\<close> and \<^verbatim>\<open>>=\<close> with an
      \<^verbatim>\<open>int\<close> raise \<^verbatim>\<open>TypeError\<close>\<close>
  "py_int (JInt n) = Some n"
| "py_int (JBool b) = Some (if b then 1 else 0)"
| "py_int _ = None"

fun py_iter :: "json \<Rightarrow> json list option" where
  \<comment> \<open>the elements \<^verbatim>\<open>results.extend(data)\<close> appends; \<open>None\<close> for the values on which
      \<^verbatim>\<open>len(data)\<close> raises \<^verbatim>\<open>TypeError\<close>\<close>
  "py_iter (JList xs) = Some xs"
| "py_iter (JStr s) = Some (map (\<lambda>c. JStr [c]) s)"
| "py_iter (JObj kvs) = Some (map (\<lambda>kv. JStr (fst kv)) kvs)"
| "py_iter _ = None"

datatype error =
    ValueError string
  | KeyError string
  | TypeError
  | AttributeError
  | OverflowError
  | HTTPError int
  | RequestException
  | JSONDecodeError

section \<open>Python's floating-point sums and text of values\<close>

text \<open>
  \<^verbatim>\<open>time.time()\<close> returns a float and \<^verbatim>\<open>time.time() + expires_in\<close> is a floating-point
  sum. The clock of the model reads whole seconds, so every time is a float with an integer
  value (\<open>Finite\<close>) or an infinity. \<open>round53\<close> rounds an integer to the nearest float
  (53 significant bits, ties to even); \<open>to_double\<close> is the conversion of a Python
  \<^verbatim>\<open>int\<close> to a float, which raises \<^verbatim>\<open>OverflowError\<close> from \<open>2^1024 - 2^970\<close> on;
  \<open>float_add\<close> is the sum of two floats, which overflows to an infinity.
\<close>

datatype pyfloat = Finite int | Infinity bool

function bit_length :: "int \<Rightarrow> nat" where
  "bit_length n = (if n \<le> 0 then 0 else Suc (bit_length (n div 2)))"
  by pat_completeness auto
termination
  by (relation "measure nat") auto

declare bit_length.simps [simp del]

definition round53 :: "int \<Rightarrow> int" where
  "round53 n =
     (if \<bar>n\<bar> < 2 ^ 53 then n
      else (let s = bit_length \<bar>n\<bar> - 53;
                q = \<bar>n\<bar> div 2 ^ s;
                r = \<bar>n\<bar> mod 2 ^ s;
                q1 = (if 2 * r > 2 ^ s \<or> (2 * r = 2 ^ s \<and> odd q) then q + 1 else q)
            in sgn n * q1 * 2 ^ s))"

definition to_double :: "int \<Rightarrow> int option" where
  "to_double n = (if \<bar>n\<bar> \<ge> 2 ^ 1024 - 2 ^ 970 then None else Some (round53 n))"

definition float_add :: "int \<Rightarrow> int \<Rightarrow> pyfloat" where
  "float_add x y =
     (let r = round53 (x + y)
      in if r \<ge> 2 ^ 1024 then Infinity True
         else if r \<le> - (2 ^ 1024) then Infinity False
         else Finite r)"

fun py_float_add :: "int \<Rightarrow> json \<Rightarrow> error + pyfloat" where
  \<comment> \<open>\<^verbatim>\<open>x + v\<close> for a float \<open>x\<close>: an \<^verbatim>\<open>int\<close> (or \<^verbatim>\<open>bool\<close>) is converted first, every
      other value raises \<^verbatim>\<open>TypeError\<close>\<close>
  "py_float_add x (JInt n) =
     (case to_double n of None \<Rightarrow> Inl OverflowError | Some d \<Rightarrow> Inr (float_add x d))"
| "py_float_add x (JBool b) = Inr (float_add x (if b then 1 else 0))"
| "py_float_add x _ = Inl TypeError"

fun time_ge :: "int \<Rightarrow> pyfloat \<Rightarrow> bool" where
  \<comment> \<open>\<^verbatim>\<open>x >= y\<close> for a finite float \<open>x\<close>\<close>
  "time_ge x (Finite y) = (x \<ge> y)"
| "time_ge x (Infinity positive) = (\<not> positive)"

text \<open>
  \<^verbatim>\<open>str(v)\<close>, as an f-string formats a value: a string is itself, every other value is
  its \<^verbatim>\<open>repr\<close>. A character of the model is a code point below 256.
\<close>

definition digit_char :: "nat \<Rightarrow> char" where
  "digit_char d = ''0123456789abcdef'' ! d"

fun digits :: "nat \<Rightarrow> string" where
  "digits n = (if n < 10 then [digit_char n] else digits (n div 10) @ [digit_char (n mod 10)])"

declare digits.simps [simp del]

definition show_int :: "int \<Rightarrow> string" where
  "show_int n = (if n < 0 then CHR ''-'' # digits (nat (- n)) else digits (nat n))"

definition escape_char :: "char \<Rightarrow> char \<Rightarrow> string" where
  \<comment> \<open>one character inside \<^verbatim>\<open>repr\<close> of a string quoted with \<open>q\<close>: the quote and the
      backslash are escaped, tab, newline and carriage return have their letters, the
      other characters that are not printable are written \<^verbatim>\<open>\xhh\<close>\<close>
  "escape_char q c =
     (let k = (of_char c :: nat) in
      if c = q \<or> c = CHR 0x5C then [CHR 0x5C, c]
      else if c = CHR 0x09 then [CHR 0x5C, CHR ''t'']
      else if c = CHR 0x0A then [CHR 0x5C, CHR ''n'']
      else if c = CHR 0x0D then [CHR 0x5C, CHR ''r'']
      else if k < 32 \<or> k = 127 \<or> (128 \<le> k \<and> k \<le> 160) \<or> k = 173
        then [CHR 0x5C, CHR ''x'', digit_char (k div 16), digit_char (k mod 16)]
      else [c])"

definition repr_str :: "string \<Rightarrow> string" where
  \<comment> \<open>single quotes, unless the string has a single quote and no double quote\<close>
  "repr_str s =
     (let q = (if CHR 0x27 \<in> set s \<and> CHR 0x22 \<notin> set s then CHR 0x22 else CHR 0x27)
      in q # concat (map (escape_char q) s) @ [q])"

fun join :: "string \<Rightarrow> string list \<Rightarrow> string" where
  "join sep [] = []"
| "join sep [x] = x"
| "join sep (x # y # ys) = x @ sep @ join sep (y # ys)"

primrec py_repr :: "json \<Rightarrow> string" where
  "py_repr JNull = ''None''"
| "py_repr (JBool b) = (if b then ''True'' else ''False'')"
| "py_repr (JInt n) = show_int n"
| "py_repr (JStr s) = repr_str s"
| "py_repr (JList xs) = ''['' @ join '', '' (map py_repr xs) @ '']''"
| "py_repr (JObj kvs) =
     ''{'' @ join '', '' (map (\<lambda>kr. repr_str (fst kr) @ '': '' @ snd kr)
                             (map (map_prod id py_repr) kvs)) @ ''}''"

definition py_str :: "json \<Rightarrow> string" where
  "py_str v = (case v of JStr s \<Rightarrow> s | _ \<Rightarrow> py_repr v)"

section \<open>The environment: clock, transport, object store\<close>

record request =
  req_method :: string
  req_url :: string
  req_headers :: "string dict"
  req_params :: "json dict"
  req_kwargs :: "json dict"

record response =
  status_code :: int
  body :: "json option"

record token_request =
  tr_url :: string
  tr_data :: "string dict"
  tr_auth :: "string \<times> string"

text \<open>
  The world outside the client: \<open>clock k\<close> is what the \<open>k\<close>-th call of \<^verbatim>\<open>time.time()\<close>
  returns (whole seconds), \<open>token_endpoint k\<close> and \<open>api k\<close> answer the \<open>k\<close>-th request sent to the token
  endpoint and to the API (an answer is a response, or the exception the transport
  raises). \<open>token_posts\<close> and \<open>sent\<close> log the requests issued, oldest first. \<open>heap\<close> holds
  the parameter dictionaries that are passed by reference; an address is an index.
\<close>

record world =
  clock :: "nat \<Rightarrow> int"
  clock_reads :: nat
  token_endpoint :: "nat \<Rightarrow> token_request \<Rightarrow> error + response"
  token_posts :: "token_request list"
  api :: "nat \<Rightarrow> request \<Rightarrow> error + response"
  sent :: "request list"
  heap :: "json dict list"

definition time_time :: "world \<Rightarrow> int \<times> world" where
  "time_time w = (clock w (clock_reads w), w\<lparr>clock_reads := Suc (clock_reads w)\<rparr>)"

definition requests_post :: "world \<Rightarrow> token_request \<Rightarrow> (error + response) \<times> world" where
  "requests_post w rq =
     (token_endpoint w (length (token_posts w)) rq, w\<lparr>token_posts := token_posts w @ [rq]\<rparr>)"

definition requests_request :: "world \<Rightarrow> request \<Rightarrow> (error + response) \<times> world" where
  "requests_request w rq = (api w (length (sent w)) rq, w\<lparr>sent := sent w @ [rq]\<rparr>)"

definition raises_for_status :: "int \<Rightarrow> bool" where
  \<comment> \<open>\<^verbatim>\<open>Response.raise_for_status\<close> raises \<^verbatim>\<open>HTTPError\<close> for the 4xx and 5xx codes\<close>
  "raises_for_status st = (400 \<le> st \<and> st < 600)"

definition alloc :: "json dict \<Rightarrow> world \<Rightarrow> nat \<times> world" where
  "alloc d w = (length (heap w), w\<lparr>heap := heap w @ [d]\<rparr>)"

section \<open>Authentication strategies\<close>

record auth_data =
  ad_headers :: "string dict"
  ad_params :: "json dict"

record api_key_auth =
  api_key :: string
  location :: string
  name :: string
  extra_headers :: "string dict"

definition APIKeyAuth_init ::
  "string \<Rightarrow> string \<Rightarrow> string \<Rightarrow> string dict option \<Rightarrow> api_key_auth" where
  "APIKeyAuth_init k loc n eh =
     \<lparr>api_key = k, location = loc, name = n,
      extra_headers = (case eh of None \<Rightarrow> [] | Some d \<Rightarrow> d)\<rparr>"

definition APIKeyAuth_get_auth_data :: "api_key_auth \<Rightarrow> error + auth_data" where
  "APIKeyAuth_get_auth_data a =
     (if location a = ''header'' then
        Inr \<lparr>ad_headers = dict_update [(name a, api_key a)] (extra_headers a), ad_params = []\<rparr>
      else if location a = ''query'' then
        Inr \<lparr>ad_headers = extra_headers a, ad_params = [(name a, JStr (api_key a))]\<rparr>
      else Inl (ValueError ''Invalid API key location''))"

record client_credentials_auth =
  token_url :: string
  client_id :: string
  client_secret :: string
  access_token :: json
  expiry_time :: pyfloat

definition ClientCredentialsAuth_init ::
  "string \<Rightarrow> string \<Rightarrow> string \<Rightarrow> client_credentials_auth" where
  \<comment> \<open>\<^verbatim>\<open>self.access_token = None; self.expiry_time = 0\<close>\<close>
  "ClientCredentialsAuth_init url cid secret =
     \<lparr>token_url = url, client_id = cid, client_secret = secret,
      access_token = JNull, expiry_time = Finite 0\<rparr>"

definition authenticate ::
  "client_credentials_auth \<Rightarrow> world \<Rightarrow> (error + unit) \<times> client_credentials_auth \<times> world" where
  \<comment> \<open>\<^verbatim>\<open>ClientCredentialsAuth._authenticate\<close>. The token is assigned before the expiry is
      computed: when the sum raises, the new token stays with the old expiry.\<close>
  "authenticate a w =
     (case requests_post w
             \<lparr>tr_url = token_url a, tr_data = [(''grant_type'', ''client_credentials'')],
              tr_auth = (client_id a, client_secret a)\<rparr> of
        (Inl e, w1) \<Rightarrow> (Inl e, a, w1)
      | (Inr resp, w1) \<Rightarrow>
          if raises_for_status (status_code resp) then (Inl (HTTPError (status_code resp)), a, w1)
          else (case body resp of
                  None \<Rightarrow> (Inl JSONDecodeError, a, w1)
                | Some token_data \<Rightarrow>
                    (case token_data of
                       JObj d \<Rightarrow>
                         (case map_of d ''access_token'' of
                            None \<Rightarrow> (Inl (KeyError ''access_token''), a, w1)
                          | Some t \<Rightarrow>
                              (let a1 = a\<lparr>access_token := t\<rparr>;
                                   expires_in = dict_get d ''expires_in'' (JInt 3600);
                                   (now, w2) = time_time w1
                               in case py_float_add now expires_in of
                                    Inl e \<Rightarrow> (Inl e, a1, w2)
                                  | Inr x \<Rightarrow> (Inr (), a1\<lparr>expiry_time := x\<rparr>, w2)))
                     | _ \<Rightarrow> (Inl TypeError, a, w1))))"

definition force_refresh ::
  "client_credentials_auth \<Rightarrow> world \<Rightarrow> (error + unit) \<times> client_credentials_auth \<times> world" where
  "force_refresh a w = authenticate (a\<lparr>access_token := JNull, expiry_time := Finite 0\<rparr>) w"

definition bearer :: "json \<Rightarrow> string" where
  \<comment> \<open>the f-string \<^verbatim>\<open>f"Bearer {self.access_token}"\<close>\<close>
  "bearer t = ''Bearer '' @ py_str t"

definition ClientCredentialsAuth_get_auth_data ::
  "client_credentials_auth \<Rightarrow> world \<Rightarrow> (error + auth_data) \<times> client_credentials_auth \<times> world" where
  "ClientCredentialsAuth_get_auth_data a w =
     (let (r, a1, w1) =
            (if \<not> truthy (access_token a) then authenticate a w
             else (let (now, w0) = time_time w
                   in if time_ge now (expiry_time a) then authenticate a w0 else (Inr (), a, w0)))
      in case r of
           Inl e \<Rightarrow> (Inl e, a1, w1)
         | Inr u \<Rightarrow>
             (Inr \<lparr>ad_headers = [(''Authorization'', bearer (access_token a1))], ad_params = []\<rparr>,
              a1, w1))"

datatype auth = APIKeyAuth api_key_auth | ClientCredentialsAuth client_credentials_auth

fun get_auth_data :: "auth \<Rightarrow> world \<Rightarrow> (error + auth_data) \<times> auth \<times> world" where
  \<comment> \<open>the dynamic dispatch of \<^verbatim>\<open>self.auth.get_auth_data()\<close>\<close>
  "get_auth_data (APIKeyAuth a) w = (APIKeyAuth_get_auth_data a, APIKeyAuth a, w)"
| "get_auth_data (ClientCredentialsAuth a) w =
     (case ClientCredentialsAuth_get_auth_data a w of
        (r, a1, w1) \<Rightarrow> (r, ClientCredentialsAuth a1, w1))"

section \<open>The client\<close>

definition rstrip_slash :: "string \<Rightarrow> string" where
  \<comment> \<open>\<^verbatim>\<open>s.rstrip("/")\<close>\<close>
  "rstrip_slash s = rev (dropWhile (\<lambda>c. c = CHR ''/'') (rev s))"

definition lstrip_slash :: "string \<Rightarrow> string" where
  \<comment> \<open>\<^verbatim>\<open>s.lstrip("/")\<close>\<close>
  "lstrip_slash s = dropWhile (\<lambda>c. c = CHR ''/'') s"

record auth_config =
  cfg_auth_type :: "string option"
  cfg_api_key :: "string option"
  cfg_location :: "string option"
  cfg_name :: "string option"
  cfg_extra_headers :: "string dict option"
  cfg_token_url :: "string option"
  cfg_client_id :: "string option"
  cfg_client_secret :: "string option"

definition create_auth :: "auth_config \<Rightarrow> error + auth" where
  \<comment> \<open>\<^verbatim>\<open>UniversalAPIClient._create_auth\<close>; a missing mandatory key raises \<^verbatim>\<open>KeyError\<close>\<close>
  "create_auth config =
     (if cfg_auth_type config = Some ''api_key'' then
        (case cfg_api_key config of
           None \<Rightarrow> Inl (KeyError ''api_key'')
         | Some k \<Rightarrow>
             Inr (APIKeyAuth (APIKeyAuth_init k
                    (case cfg_location config of None \<Rightarrow> ''header'' | Some l \<Rightarrow> l)
                    (case cfg_name config of None \<Rightarrow> ''x-api-key'' | Some n \<Rightarrow> n)
                    (Some (case cfg_extra_headers config of None \<Rightarrow> [] | Some d \<Rightarrow> d)))))
      else if cfg_auth_type config = Some ''client_credentials'' then
        (case cfg_token_url config of
           None \<Rightarrow> Inl (KeyError ''token_url'')
         | Some url \<Rightarrow>
            (case cfg_client_id config of
               None \<Rightarrow> Inl (KeyError ''client_id'')
             | Some cid \<Rightarrow>
                (case cfg_client_secret config of
                   None \<Rightarrow> Inl (KeyError ''client_secret'')
                 | Some secret \<Rightarrow> Inr (ClientCredentialsAuth (ClientCredentialsAuth_init url cid secret)))))
      else Inl (ValueError ''Unsupported auth type''))"

record client =
  base_url :: string
  auth :: auth

definition UniversalAPIClient_init :: "string \<Rightarrow> auth_config \<Rightarrow> error + client" where
  "UniversalAPIClient_init url config =
     (case create_auth config of
        Inl e \<Rightarrow> Inl e
      | Inr a \<Rightarrow> Inr \<lparr>base_url = rstrip_slash url, auth = a\<rparr>)"

definition make_url :: "client \<Rightarrow> string \<Rightarrow> string" where
  \<comment> \<open>\<^verbatim>\<open>f"{self.base_url}/{endpoint.lstrip('/')}"\<close>\<close>
  "make_url c endpoint = base_url c @ ''/'' @ lstrip_slash endpoint"

fun is_ClientCredentialsAuth :: "auth \<Rightarrow> bool" where
  "is_ClientCredentialsAuth (ClientCredentialsAuth a) = True"
| "is_ClientCredentialsAuth (APIKeyAuth a) = False"

fun auth_force_refresh :: "auth \<Rightarrow> world \<Rightarrow> (error + unit) \<times> auth \<times> world" where
  \<comment> \<open>\<^verbatim>\<open>self.auth.force_refresh()\<close>; \<^verbatim>\<open>APIKeyAuth\<close> has no such method\<close>
  "auth_force_refresh (ClientCredentialsAuth a) w =
     (case force_refresh a w of (r, a1, w1) \<Rightarrow> (r, ClientCredentialsAuth a1, w1))"
| "auth_force_refresh (APIKeyAuth a) w = (Inl AttributeError, APIKeyAuth a, w)"

definition finish :: "response \<Rightarrow> error + response" where
  \<comment> \<open>\<^verbatim>\<open>response.raise_for_status(); return response\<close>\<close>
  "finish resp =
     (if raises_for_status (status_code resp) then Inl (HTTPError (status_code resp)) else Inr resp)"

definition make_request ::
  "client \<Rightarrow> world \<Rightarrow> string \<Rightarrow> string \<Rightarrow> json dict option \<Rightarrow> json dict
     \<Rightarrow> (error + response) \<times> client \<times> world" where
  \<comment> \<open>\<^verbatim>\<open>UniversalAPIClient._make_request(method, endpoint, params, **kwargs)\<close>\<close>
  "make_request c w method endpoint params kwargs =
     (let url = make_url c endpoint in
      case get_auth_data (auth c) w of
        (Inl e, a1, w1) \<Rightarrow> (Inl e, c\<lparr>auth := a1\<rparr>, w1)
      | (Inr ad, a1, w1) \<Rightarrow>
          (let final_params =
                 dict_update (case params of None \<Rightarrow> [] | Some p \<Rightarrow> dict_update [] p) (ad_params ad);
               rq = \<lparr>req_method = method, req_url = url, req_headers = ad_headers ad,
                     req_params = final_params, req_kwargs = kwargs\<rparr>
           in case requests_request w1 rq of
                (Inl e, w2) \<Rightarrow> (Inl e, c\<lparr>auth := a1\<rparr>, w2)
              | (Inr resp, w2) \<Rightarrow>
                  if status_code resp = 401 \<and> is_ClientCredentialsAuth a1 then
                    (case auth_force_refresh a1 w2 of
                       (Inl e, a2, w3) \<Rightarrow> (Inl e, c\<lparr>auth := a2\<rparr>, w3)
                     | (Inr u, a2, w3) \<Rightarrow>
                         (case get_auth_data a2 w3 of
                            (Inl e, a3, w4) \<Rightarrow> (Inl e, c\<lparr>auth := a3\<rparr>, w4)
                          | (Inr ad2, a3, w4) \<Rightarrow>
                              (case requests_request w4 (rq\<lparr>req_headers := ad_headers ad2\<rparr>) of
                                 (Inl e, w5) \<Rightarrow> (Inl e, c\<lparr>auth := a3\<rparr>, w5)
                               | (Inr resp2, w5) \<Rightarrow> (finish resp2, c\<lparr>auth := a3\<rparr>, w5))))
                  else (finish resp, c\<lparr>auth := a1\<rparr>, w2)))"

definition get :: "client \<Rightarrow> world \<Rightarrow> string \<Rightarrow> json dict option \<Rightarrow> (error + json) \<times> client \<times> world" where
  \<comment> \<open>\<^verbatim>\<open>self._make_request("GET", endpoint, params=params).json()\<close>\<close>
  "get c w endpoint params =
     (case make_request c w ''GET'' endpoint params [] of
        (Inl e, c1, w1) \<Rightarrow> (Inl e, c1, w1)
      | (Inr resp, c1, w1) \<Rightarrow>
          (case body resp of None \<Rightarrow> (Inl JSONDecodeError, c1, w1) | Some j \<Rightarrow> (Inr j, c1, w1)))"

definition post :: "client \<Rightarrow> world \<Rightarrow> string \<Rightarrow> json \<Rightarrow> (error + json) \<times> client \<times> world" where
  \<comment> \<open>\<^verbatim>\<open>self._make_request("POST", endpoint, json=json).json()\<close>\<close>
  "post c w endpoint j =
     (case make_request c w ''POST'' endpoint None [(''json'', j)] of
        (Inl e, c1, w1) \<Rightarrow> (Inl e, c1, w1)
      | (Inr resp, c1, w1) \<Rightarrow>
          (case body resp of None \<Rightarrow> (Inl JSONDecodeError, c1, w1) | Some b \<Rightarrow> (Inr b, c1, w1)))"

section \<open>Fetching all paginated records\<close>

text \<open>
  The three loops of \<^verbatim>\<open>get_all\<close>. The local \<^verbatim>\<open>params\<close> is the dictionary at address
  \<open>a\<close> of the store; the variable \<^verbatim>\<open>total_count\<close> holds \<open>JNull\<close> for \<^verbatim>\<open>None\<close>. The
  \<^verbatim>\<open>print\<close> calls write to standard output only; what remains of them is the
  \<^verbatim>\<open>TypeError\<close> of \<^verbatim>\<open>len(data)\<close> on a value that has no length.
\<close>

datatype flow = Continue | Break | Raise error

definition offset_body ::
  "client \<Rightarrow> world \<Rightarrow> string \<Rightarrow> nat \<Rightarrow> string \<Rightarrow> json \<Rightarrow> int \<Rightarrow> json \<Rightarrow> json list
     \<Rightarrow> flow \<times> (int \<times> json \<times> json list) \<times> client \<times> world" where
  \<comment> \<open>one pass through the body of \<^verbatim>\<open>while True\<close> of the OFFSET strategy\<close>
  "offset_body c w endpoint a offset_field limit offset total_count results =
     (let w1 = w\<lparr>heap := (heap w)[a := dict_set (heap w ! a) offset_field (JInt offset)]\<rparr> in
      case get c w1 endpoint (Some (heap w1 ! a)) of
        (Inl e, c1, w2) \<Rightarrow> (Raise e, (offset, total_count, results), c1, w2)
      | (Inr resp, c1, w2) \<Rightarrow>
          (case resp of
             JObj r \<Rightarrow>
               (let data = dict_get r ''orders'' (JList []) in
                case py_iter data of
                  None \<Rightarrow> (Raise TypeError, (offset, total_count, results), c1, w2)
                | Some items \<Rightarrow>
                    (let results1 = results @ items;
                         total_count1 =
                           (if total_count = JNull then dict_get r ''total_count'' JNull
                            else total_count)
                     in case py_int limit of
                          None \<Rightarrow> (Raise TypeError, (offset, total_count1, results1), c1, w2)
                        | Some n \<Rightarrow>
                            (let offset1 = offset + n in
                             if offset1 \<ge> 25 then (Break, (offset1, total_count1, results1), c1, w2)
                             else if total_count1 \<noteq> JNull then
                               (case py_int total_count1 of
                                  None \<Rightarrow> (Raise TypeError, (offset1, total_count1, results1), c1, w2)
                                | Some tc \<Rightarrow>
                                    if offset1 \<ge> tc then
                                      (Break, (offset1, total_count1, results1), c1, w2)
                                    else if \<not> truthy data then
                                      (Break, (offset1, total_count1, results1), c1, w2)
                                    else (Continue, (offset1, total_count1, results1), c1, w2))
                             else if \<not> truthy data then
                               (Break, (offset1, total_count1, results1), c1, w2)
                             else (Continue, (offset1, total_count1, results1), c1, w2))))
           | _ \<Rightarrow> (Raise AttributeError, (offset, total_count, results), c1, w2)))"

partial_function (option) offset_loop ::
  "client \<Rightarrow> world \<Rightarrow> string \<Rightarrow> nat \<Rightarrow> string \<Rightarrow> json \<Rightarrow> int \<Rightarrow> json \<Rightarrow> json list
     \<Rightarrow> ((error + json list) \<times> client \<times> world) option" where
  "offset_loop c w endpoint a offset_field limit offset total_count results =
     (case offset_body c w endpoint a offset_field limit offset total_count results of
        (Raise e, vs, c1, w1) \<Rightarrow> Some (Inl e, c1, w1)
      | (Break, (offset1, total_count1, results1), c1, w1) \<Rightarrow> Some (Inr results1, c1, w1)
      | (Continue, (offset1, total_count1, results1), c1, w1) \<Rightarrow>
          offset_loop c1 w1 endpoint a offset_field limit offset1 total_count1 results1)"

function page_loop ::
  "client \<Rightarrow> world \<Rightarrow> string \<Rightarrow> nat \<Rightarrow> string \<Rightarrow> int \<Rightarrow> json list
     \<Rightarrow> (error + json list) \<times> client \<times> world" where
  "page_loop c w endpoint a page_field page results =
     (let w1 = w\<lparr>heap := (heap w)[a := dict_set (heap w ! a) page_field (JInt page)]\<rparr> in
      case get c w1 endpoint (Some (heap w1 ! a)) of
        (Inl e, c1, w2) \<Rightarrow> (Inl e, c1, w2)
      | (Inr resp, c1, w2) \<Rightarrow>
          (case resp of
             JObj r \<Rightarrow>
               (let data = dict_get r ''orders'' (JList []) in
                case py_iter data of
                  None \<Rightarrow> (Inl TypeError, c1, w2)
                | Some items \<Rightarrow>
                    (let results1 = results @ items;
                         total_pages = dict_get r ''total_pages'' JNull
                     in if page > 3 then (Inr results1, c1, w2)
                        else if total_pages \<noteq> JNull then
                          (case py_int total_pages of
                             None \<Rightarrow> (Inl TypeError, c1, w2)
                           | Some tp \<Rightarrow>
                               if page \<ge> tp then (Inr results1, c1, w2)
                               else page_loop c1 w2 endpoint a page_field (page + 1) results1)
                        else if \<not> truthy data then (Inr results1, c1, w2)
                        else page_loop c1 w2 endpoint a page_field (page + 1) results1))
           | _ \<Rightarrow> (Inl AttributeError, c1, w2)))"
  by pat_completeness auto
termination
  by (relation "measure (\<lambda>(c, w, endpoint, a, page_field, page, results). nat (4 - page))") auto

function has_more_loop ::
  "client \<Rightarrow> world \<Rightarrow> string \<Rightarrow> nat \<Rightarrow> string \<Rightarrow> int \<Rightarrow> json list
     \<Rightarrow> (error + json list) \<times> client \<times> world" where
  \<comment> \<open>the body of \<^verbatim>\<open>while has_more\<close>, entered with \<^verbatim>\<open>has_more\<close> true\<close>
  "has_more_loop c w endpoint a has_more_field iteration results =
     (case get c w endpoint (Some (heap w ! a)) of
        (Inl e, c1, w2) \<Rightarrow> (Inl e, c1, w2)
      | (Inr resp, c1, w2) \<Rightarrow>
          (case resp of
             JObj r \<Rightarrow>
               (let data = dict_get r ''orders'' (JList []);
                    iteration1 = iteration + 1
                in case py_iter data of
                     None \<Rightarrow> (Inl TypeError, c1, w2)
                   | Some items \<Rightarrow>
                       (let results1 = results @ items;
                            has_more = dict_get r has_more_field (JBool False)
                        in if iteration1 \<ge> 3 then (Inr results1, c1, w2)
                           else if truthy has_more then
                             has_more_loop c1 w2 endpoint a has_more_field iteration1 results1
                           else (Inr results1, c1, w2)))
           | _ \<Rightarrow> (Inl AttributeError, c1, w2)))"
  by pat_completeness auto
termination
  by (relation "measure (\<lambda>(c, w, endpoint, a, has_more_field, iteration, results). nat (3 - iteration))")
     auto

text \<open>
  One pass through the body of the PAGE loop and of the HAS_MORE loop, by itself: the state
  the pass leaves, and whether the loop goes on, breaks or raises. \<open>page_loop\<close> and
  \<open>has_more_loop\<close> repeat these passes (lemmas \<open>page_loop_unfold\<close> and
  \<open>has_more_loop_unfold\<close>).
\<close>

definition page_body ::
  "client \<Rightarrow> world \<Rightarrow> string \<Rightarrow> nat \<Rightarrow> string \<Rightarrow> int \<Rightarrow> json list
     \<Rightarrow> flow \<times> (int \<times> json list) \<times> client \<times> world" where
  "page_body c w endpoint a page_field page results =
     (let w1 = w\<lparr>heap := (heap w)[a := dict_set (heap w ! a) page_field (JInt page)]\<rparr> in
      case get c w1 endpoint (Some (heap w1 ! a)) of
        (Inl e, c1, w2) \<Rightarrow> (Raise e, (page, results), c1, w2)
      | (Inr resp, c1, w2) \<Rightarrow>
          (case resp of
             JObj r \<Rightarrow>
               (let data = dict_get r ''orders'' (JList []) in
                case py_iter data of
                  None \<Rightarrow> (Raise TypeError, (page, results), c1, w2)
                | Some items \<Rightarrow>
                    (let results1 = results @ items;
                         total_pages = dict_get r ''total_pages'' JNull
                     in if page > 3 then (Break, (page, results1), c1, w2)
                        else if total_pages \<noteq> JNull then
                          (case py_int total_pages of
                             None \<Rightarrow> (Raise TypeError, (page, results1), c1, w2)
                           | Some tp \<Rightarrow>
                               if page \<ge> tp then (Break, (page, results1), c1, w2)
                               else (Continue, (page + 1, results1), c1, w2))
                        else if \<not> truthy data then (Break, (page, results1), c1, w2)
                        else (Continue, (page + 1, results1), c1, w2)))
           | _ \<Rightarrow> (Raise AttributeError, (page, results), c1, w2)))"

definition has_more_body ::
  "client \<Rightarrow> world \<Rightarrow> string \<Rightarrow> nat \<Rightarrow> string \<Rightarrow> int \<Rightarrow> json list
     \<Rightarrow> flow \<times> (int \<times> json list) \<times> client \<times> world" where
  "has_more_body c w endpoint a has_more_field iteration results =
     (case get c w endpoint (Some (heap w ! a)) of
        (Inl e, c1, w2) \<Rightarrow> (Raise e, (iteration, results), c1, w2)
      | (Inr resp, c1, w2) \<Rightarrow>
          (case resp of
             JObj r \<Rightarrow>
               (let data = dict_get r ''orders'' (JList []);
                    iteration1 = iteration + 1
                in case py_iter data of
                     None \<Rightarrow> (Raise TypeError, (iteration1, results), c1, w2)
                   | Some items \<Rightarrow>
                       (let results1 = results @ items;
                            has_more = dict_get r has_more_field (JBool False)
                        in if iteration1 \<ge> 3 then (Break, (iteration1, results1), c1, w2)
                           else if truthy has_more then (Continue, (iteration1, results1), c1, w2)
                           else (Break, (iteration1, results1), c1, w2)))
           | _ \<Rightarrow> (Raise AttributeError, (iteration, results), c1, w2)))"

record field_names =
  limit_field :: string
  offset_field :: string
  page_field :: string
  per_page_field :: string
  has_more_field :: string

definition default_fields :: field_names where
  "default_fields =
     \<lparr>limit_field = ''limit'', offset_field = ''offset'', page_field = ''page'',
      per_page_field = ''per_page'', has_more_field = ''has_more''\<rparr>"

definition copy_params :: "nat option \<Rightarrow> world \<Rightarrow> nat \<times> world" where
  \<comment> \<open>\<^verbatim>\<open>params = params.copy() if params else {}\<close>: a new dictionary either way\<close>
  "copy_params params w =
     (case params of
        None \<Rightarrow> alloc [] w
      | Some p \<Rightarrow> if heap w ! p \<noteq> [] then alloc (heap w ! p) w else alloc [] w)"

definition get_all ::
  "client \<Rightarrow> world \<Rightarrow> string \<Rightarrow> nat option \<Rightarrow> string \<Rightarrow> field_names
     \<Rightarrow> ((error + json list) \<times> client \<times> world) option" where
  \<comment> \<open>\<^verbatim>\<open>UniversalAPIClient.get_all\<close>; \<open>None\<close> when the call does not return\<close>
  "get_all c w endpoint params strategy fs =
     (case copy_params params w of
        (a, w0) \<Rightarrow>
          if strategy = ''offset'' then
            offset_loop c w0 endpoint a (offset_field fs)
              (dict_get (heap w0 ! a) (limit_field fs) (JInt 50)) 0 JNull []
          else if strategy = ''page'' then
            Some (page_loop c w0 endpoint a (page_field fs) 1 [])
          else if strategy = ''has_more'' then
            Some (has_more_loop c w0 endpoint a (has_more_field fs) 0 [])
          else Some (Inr [], c, w0))"

section \<open>Notions used in the statements\<close>

definition token_request_of :: "client_credentials_auth \<Rightarrow> token_request" where
  \<comment> \<open>the POST that \<^verbatim>\<open>_authenticate\<close> sends\<close>
  "token_request_of a =
     \<lparr>tr_url = token_url a, tr_data = [(''grant_type'', ''client_credentials'')],
      tr_auth = (client_id a, client_secret a)\<rparr>"

definition fetch_needed :: "client_credentials_auth \<Rightarrow> world \<Rightarrow> bool" where
  \<comment> \<open>the test of \<^verbatim>\<open>ClientCredentialsAuth.get_auth_data\<close>, on the time the clock shows next\<close>
  "fetch_needed a w =
     (\<not> truthy (access_token a) \<or> time_ge (clock w (clock_reads w)) (expiry_time a))"

definition request_of ::
  "client \<Rightarrow> string \<Rightarrow> string \<Rightarrow> json dict option \<Rightarrow> json dict \<Rightarrow> auth_data \<Rightarrow> request" where
  \<comment> \<open>the request that \<^verbatim>\<open>_make_request\<close> hands to the transport, given the auth data\<close>
  "request_of c method endpoint ps kwargs ad =
     \<lparr>req_method = method, req_url = make_url c endpoint, req_headers = ad_headers ad,
      req_params = dict_update (case ps of None \<Rightarrow> [] | Some p \<Rightarrow> dict_update [] p) (ad_params ad),
      req_kwargs = kwargs\<rparr>"

fun passes :: "nat \<Rightarrow> ('s \<Rightarrow> flow \<times> 's) \<Rightarrow> 's \<Rightarrow> 's option" where
  \<comment> \<open>the state of a loop after \<open>n\<close> passes through its body that all went on to the next
      pass; \<open>None\<close> when the loop ended earlier\<close>
  "passes 0 pass s = Some s"
| "passes (Suc n) pass s =
     (case pass s of
        (Continue, s') \<Rightarrow> passes n pass s'
      | (Break, s') \<Rightarrow> None
      | (Raise e, s') \<Rightarrow> None)"

definition offset_pass ::
  "string \<Rightarrow> nat \<Rightarrow> string \<Rightarrow> json
     \<Rightarrow> (int \<times> json \<times> json list) \<times> client \<times> world
     \<Rightarrow> flow \<times> (int \<times> json \<times> json list) \<times> client \<times> world" where
  \<comment> \<open>the body of the OFFSET loop as a function of the loop state\<close>
  "offset_pass endpoint a ofield lim =
     (\<lambda>((off, tc, res), c, w). offset_body c w endpoint a ofield lim off tc res)"

definition page_pass ::
  "string \<Rightarrow> nat \<Rightarrow> string
     \<Rightarrow> (int \<times> json list) \<times> client \<times> world \<Rightarrow> flow \<times> (int \<times> json list) \<times> client \<times> world" where
  \<comment> \<open>the body of the PAGE loop as a function of the loop state\<close>
  "page_pass endpoint a pfield = (\<lambda>((pg, res), c, w). page_body c w endpoint a pfield pg res)"

definition has_more_pass ::
  "string \<Rightarrow> nat \<Rightarrow> string
     \<Rightarrow> (int \<times> json list) \<times> client \<times> world \<Rightarrow> flow \<times> (int \<times> json list) \<times> client \<times> world" where
  \<comment> \<open>the body of the HAS_MORE loop as a function of the loop state\<close>
  "has_more_pass endpoint a hfield =
     (\<lambda>((it, res), c, w). has_more_body c w endpoint a hfield it res)"

definition claimed_offset_stop :: "int \<Rightarrow> json \<Rightarrow> json list \<Rightarrow> bool" where
  \<comment> \<open>the stop condition of the OFFSET loop in the words of the specification: the offset
      exceeds the ceiling of 25, or the total count is known and the offset has reached it,
      or the fetched page is empty\<close>
  "claimed_offset_stop off tc page =
     (off > 25 \<or> (\<exists>t. py_int tc = Some t \<and> off \<ge> t) \<or> page = [])"

section \<open>Example inputs\<close>

definition example_config :: auth_config where
  "example_config =
     \<lparr>cfg_auth_type = Some ''api_key'', cfg_api_key = Some ''K'', cfg_location = None,
      cfg_name = None, cfg_extra_headers = None, cfg_token_url = None, cfg_client_id = None,
      cfg_client_secret = None\<rparr>"

definition example_auth :: api_key_auth where
  "example_auth = \<lparr>api_key = ''K'', location = ''header'', name = ''x-api-key'', extra_headers = []\<rparr>"

definition example_cc :: client_credentials_auth where
  "example_cc = ClientCredentialsAuth_init ''https://auth.example.com/oauth/token'' ''id'' ''secret''"

definition token_world :: world where
  \<comment> \<open>the clock reads 100, 200, then 4000; the token endpoint hands out \<open>T0\<close>, then \<open>T1\<close>,
      without \<^verbatim>\<open>expires_in\<close>\<close>
  "token_world =
     \<lparr>clock = (\<lambda>k. if k = 0 then 100 else if k = 1 then 200 else 4000),
      clock_reads = 0,
      token_endpoint =
        (\<lambda>k rq. Inr \<lparr>status_code = 200,
                       body = Some (JObj [(''access_token'',
                                           JStr (if k = 0 then ''T0'' else ''T1''))])\<rparr>),
      token_posts = [],
      api = (\<lambda>k rq. Inr \<lparr>status_code = 200, body = Some (JObj [])\<rparr>),
      sent = [],
      heap = []\<rparr>"

definition no_token_world :: world where
  \<comment> \<open>the token endpoint answers 200 with \<^verbatim>\<open>{"expires_in": 60}\<close>\<close>
  "no_token_world =
     token_world\<lparr>token_endpoint :=
       (\<lambda>k rq. Inr \<lparr>status_code = 200, body = Some (JObj [(''expires_in'', JInt 60)])\<rparr>)\<rparr>"

definition empty_token_world :: world where
  \<comment> \<open>the token endpoint answers 200 with \<^verbatim>\<open>{"access_token": "", "expires_in": 3600}\<close>\<close>
  "empty_token_world =
     token_world\<lparr>token_endpoint :=
       (\<lambda>k rq. Inr \<lparr>status_code = 200,
                      body = Some (JObj [(''access_token'', JStr []),
                                         (''expires_in'', JInt 3600)])\<rparr>)\<rparr>"

definition overflow_token_world :: world where
  \<comment> \<open>the token endpoint answers 200 with \<^verbatim>\<open>{"access_token": "T0", "expires_in": 10**309}\<close>\<close>
  "overflow_token_world =
     token_world\<lparr>token_endpoint :=
       (\<lambda>k rq. Inr \<lparr>status_code = 200,
                      body = Some (JObj [(''access_token'', JStr ''T0''),
                                         (''expires_in'', JInt (10 ^ 309))])\<rparr>)\<rparr>"

definition down_token_world :: world where
  \<comment> \<open>the token endpoint answers 500\<close>
  "down_token_world =
     token_world\<lparr>token_endpoint := (\<lambda>k rq. Inr \<lparr>status_code = 500, body = None\<rparr>)\<rparr>"

definition unauthorized_world :: world where
  \<comment> \<open>the clock stands at 100 and the API answers every request with 401\<close>
  "unauthorized_world =
     token_world\<lparr>clock := (\<lambda>k. 100), api := (\<lambda>k rq. Inr \<lparr>status_code = 401, body = None\<rparr>)\<rparr>"

definition cc_client :: client where
  "cc_client = \<lparr>base_url = ''https://x.com'', auth = ClientCredentialsAuth example_cc\<rparr>"

definition api_key_client :: client where
  "api_key_client = \<lparr>base_url = ''https://x.com'', auth = APIKeyAuth example_auth\<rparr>"

definition paged_world :: "json list list \<Rightarrow> json dict list \<Rightarrow> world" where
  \<comment> \<open>a mock endpoint: the \<open>k\<close>-th request is answered with the \<open>k\<close>-th page under
      \<^verbatim>\<open>"orders"\<close>, and with an empty page once the pages are used up\<close>
  "paged_world pages objs =
     \<lparr>clock = (\<lambda>k. 100),
      clock_reads = 0,
      token_endpoint = (\<lambda>k rq. Inl RequestException),
      token_posts = [],
      api = (\<lambda>k rq. Inr \<lparr>status_code = 200,
                             body = Some (JObj [(''orders'',
                                      JList (if k < length pages then pages ! k else []))])\<rparr>),
      sent = [],
      heap = objs\<rparr>"

definition orders_request :: "json dict \<Rightarrow> request" where
  \<comment> \<open>the GET of \<^verbatim>\<open>/orders\<close> that \<open>api_key_client\<close> sends with the given parameters\<close>
  "orders_request ps =
     \<lparr>req_method = ''GET'', req_url = ''https://x.com/orders'',
      req_headers = [(''x-api-key'', ''K'')], req_params = ps, req_kwargs = []\<rparr>"

definition failing_world :: "json dict list \<Rightarrow> world" where
  \<comment> \<open>the API serves one page of one item, with \<^verbatim>\<open>"has_more": true\<close>, and answers 500
      from then on\<close>
  "failing_world objs =
     (paged_world [] objs)
       \<lparr>api := (\<lambda>k rq. if k = 0
                          then Inr \<lparr>status_code = 200,
                                    body = Some (JObj [(''orders'', JList [JInt 1]),
                                                       (''has_more'', JBool True)])\<rparr>
                          else Inr \<lparr>status_code = 500, body = None\<rparr>)\<rparr>"

section \<open>Properties\<close>

subsection \<open>Dictionaries and slashes\<close>


lemma map_of_dict_set: "map_of (dict_set d k v) = (map_of d)(k \<mapsto> v)"
  by (simp add: dict_set_def update_conv')

lemma map_of_dict_update: "map_of (dict_update d e) = map_of d ++ map_of (rev e)"
  unfolding dict_update_def
proof (induction e arbitrary: d)
  case Nil
  show ?case by simp
next
  case (Cons kv e)
  obtain k v where kv: "kv = (k, v)" by (cases kv)
  have "fold (\<lambda>(k, v) acc. dict_set acc k v) (kv # e) d
        = fold (\<lambda>(k, v) acc. dict_set acc k v) e (dict_set d k v)"
    by (simp add: kv)
  then have "map_of (fold (\<lambda>(k, v) acc. dict_set acc k v) (kv # e) d)
        = map_of (dict_set d k v) ++ map_of (rev e)"
    by (simp only: Cons.IH)
  also have "\<dots> = (map_of d)(k \<mapsto> v) ++ map_of (rev e)"
    by (simp only: map_of_dict_set)
  also have "\<dots> = (map_of d ++ [k \<mapsto> v]) ++ map_of (rev e)"
    by simp
  also have "\<dots> = map_of d ++ ([k \<mapsto> v] ++ map_of (rev e))"
    by (simp only: map_add_assoc)
  also have "[k \<mapsto> v] ++ map_of (rev e) = map_of (rev (kv # e))"
    by (simp add: kv map_of_append)
  finally show ?case .
qed

lemma takeWhile_slash: "takeWhile (\<lambda>c. c = CHR ''/'') xs = replicate (length (takeWhile (\<lambda>c. c = CHR ''/'') xs)) CHR ''/''"
  by (induction xs) auto

lemma lstrip_slash_decomp: "\<exists>m. e = replicate m CHR ''/'' @ lstrip_slash e"
proof -
  have "e = takeWhile (\<lambda>c. c = CHR ''/'') e @ lstrip_slash e"
    by (simp add: lstrip_slash_def)
  with takeWhile_slash [of e] show ?thesis by metis
qed

lemma rstrip_slash_decomp: "\<exists>n. b = rstrip_slash b @ replicate n CHR ''/''"
proof -
  obtain m where m: "rev b = replicate m CHR ''/'' @ lstrip_slash (rev b)"
    using lstrip_slash_decomp by blast
  have "b = rev (rev b)" by simp
  also have "\<dots> = rev (lstrip_slash (rev b)) @ rev (replicate m CHR ''/'')"
    by (subst m) (simp only: rev_append)
  finally have "b = rstrip_slash b @ replicate m CHR ''/''"
    by (simp add: rstrip_slash_def lstrip_slash_def)
  then show ?thesis ..
qed

lemma lstrip_slash_no_prefix: "\<not> prefix ''/'' (lstrip_slash e)"
  unfolding lstrip_slash_def by (induction e) (auto simp: prefix_def)

lemma rstrip_slash_no_suffix: "\<not> suffix ''/'' (rstrip_slash b)"
proof -
  have "\<not> prefix ''/'' (lstrip_slash (rev b))" by (rule lstrip_slash_no_prefix)
  then show ?thesis
    unfolding rstrip_slash_def lstrip_slash_def
    by (metis rev_rev_ident suffix_to_prefix rev_singleton_conv)
qed


subsection \<open>URL construction\<close>

text \<open>
  Claim C7. For every base URL and endpoint the request URL is the base URL without its
  trailing slashes, one slash, and the endpoint without its leading slashes: what is left
  of the base URL does not end in a slash and what is left of the endpoint does not start
  with one, so exactly one slash separates them.
\<close>

theorem make_url_one_slash:
  assumes "UniversalAPIClient_init b config = Inr c"
  shows "make_url c endpoint = rstrip_slash b @ ''/'' @ lstrip_slash endpoint
         \<and> (\<exists>n. b = rstrip_slash b @ replicate n CHR ''/'')
         \<and> (\<exists>m. endpoint = replicate m CHR ''/'' @ lstrip_slash endpoint)
         \<and> \<not> suffix ''/'' (rstrip_slash b)
         \<and> \<not> prefix ''/'' (lstrip_slash endpoint)"
proof -
  from assms have "base_url c = rstrip_slash b"
    by (auto simp: UniversalAPIClient_init_def split: sum.splits)
  then have "make_url c endpoint = rstrip_slash b @ ''/'' @ lstrip_slash endpoint"
    by (simp add: make_url_def)
  then show ?thesis
    using rstrip_slash_decomp lstrip_slash_decomp rstrip_slash_no_suffix lstrip_slash_no_prefix
    by blast
qed

theorem make_url_one_slash_witness:
  "UniversalAPIClient_init ''https://x.com/'' example_config
     = Inr \<lparr>base_url = ''https://x.com'', auth = APIKeyAuth example_auth\<rparr>
   \<and> make_url \<lparr>base_url = ''https://x.com'', auth = APIKeyAuth example_auth\<rparr> ''/foo''
     = ''https://x.com/foo''"
proof -
  have init: "UniversalAPIClient_init ''https://x.com/'' example_config
     = Inr \<lparr>base_url = ''https://x.com'', auth = APIKeyAuth example_auth\<rparr>"
    by (simp add: UniversalAPIClient_init_def create_auth_def example_config_def
        APIKeyAuth_init_def example_auth_def rstrip_slash_def)
  from make_url_one_slash [OF init, of "''/foo''"] init show ?thesis
    by (simp add: rstrip_slash_def lstrip_slash_def)
qed

lemma map_of_rev_distinct: "distinct (map fst xs) \<Longrightarrow> map_of (rev xs) = map_of xs"
proof (induction xs)
  case Nil
  show ?case by simp
next
  case (Cons x xs)
  obtain k v where x: "x = (k, v)" by (cases x)
  from Cons.prems have k: "k \<notin> fst ` set xs" and d: "distinct (map fst xs)"
    by (auto simp: x)
  from k have "map_of xs k = None" by (simp add: map_of_eq_None_iff)
  then have "map_of xs ++ [k \<mapsto> v] = (map_of xs)(k \<mapsto> v)" by simp
  moreover have "map_of (rev (x # xs)) = [k \<mapsto> v] ++ map_of (rev xs)"
    by (simp add: x map_of_append)
  moreover have "[k \<mapsto> v] ++ map_of xs = (map_of xs)(k \<mapsto> v)"
    using \<open>map_of xs k = None\<close> by (auto simp: map_add_def fun_eq_iff split: option.splits)
  ultimately show ?case using Cons.IH [OF d] by (simp add: x)
qed

lemma keys_dict_set: "fst ` set (dict_set d k v) = insert k (fst ` set d)"
  by (simp add: dict_set_def dom_update)

lemma keys_dict_update: "fst ` set (dict_update d e) = fst ` set d \<union> fst ` set e"
  unfolding dict_update_def
proof (induction e arbitrary: d)
  case Nil
  show ?case by simp
next
  case (Cons x e)
  have "fold (\<lambda>(k, v) acc. dict_set acc k v) (x # e) d
        = fold (\<lambda>(k, v) acc. dict_set acc k v) e (dict_set d (fst x) (snd x))"
    by (simp add: split_beta)
  then show ?case
    by (simp only: Cons.IH keys_dict_set) auto
qed

subsection \<open>API key authentication\<close>

text \<open>
  Claim C8, as amended. \<^verbatim>\<open>APIKeyAuth\<close> accepts every location at construction. At
  \<^verbatim>\<open>get_auth_data\<close> a location other than \<^verbatim>\<open>"header"\<close> and \<^verbatim>\<open>"query"\<close> raises
  \<^verbatim>\<open>ValueError\<close> (the error the specification calls ConfigurationError). For
  \<^verbatim>\<open>"header"\<close> the headers are \<^verbatim>\<open>{name: key}\<close> updated with the extra headers: every
  extra header is there, the keys are \<open>name\<close> and those of the extra headers, the query
  parameters are empty, and \<open>name\<close> carries the key when no extra header has that name.
  For \<^verbatim>\<open>"query"\<close> the headers are the extra headers and the query parameters are
  \<^verbatim>\<open>{name: key}\<close>. The extra headers are a dictionary: its keys are distinct.
\<close>

theorem api_key_auth_data:
  assumes a: "a = APIKeyAuth_init k loc n eh"
    and d: "distinct (map fst (extra_headers a))"
  shows "(loc \<noteq> ''header'' \<and> loc \<noteq> ''query'' \<longrightarrow>
            APIKeyAuth_get_auth_data a = Inl (ValueError ''Invalid API key location''))
       \<and> (loc = ''header'' \<longrightarrow>
            (\<exists>hs. APIKeyAuth_get_auth_data a = Inr \<lparr>ad_headers = hs, ad_params = []\<rparr>
               \<and> (\<forall>h v. map_of (extra_headers a) h = Some v \<longrightarrow> map_of hs h = Some v)
               \<and> (map_of (extra_headers a) n = None \<longrightarrow> map_of hs n = Some k)
               \<and> fst ` set hs = insert n (fst ` set (extra_headers a))))
       \<and> (loc = ''query'' \<longrightarrow>
            APIKeyAuth_get_auth_data a
              = Inr \<lparr>ad_headers = extra_headers a, ad_params = [(n, JStr k)]\<rparr>)"
proof -
  have sel: "location a = loc" "name a = n" "api_key a = k"
    by (simp_all add: a APIKeyAuth_init_def)
  let ?hs = "dict_update [(n, k)] (extra_headers a)"
  have m: "map_of ?hs = [n \<mapsto> k] ++ map_of (extra_headers a)"
    by (simp add: map_of_dict_update map_of_rev_distinct [OF d])
  have "\<forall>h v. map_of (extra_headers a) h = Some v \<longrightarrow> map_of ?hs h = Some v"
    by (simp add: m map_add_def)
  moreover have "map_of (extra_headers a) n = None \<longrightarrow> map_of ?hs n = Some k"
    by (simp add: m map_add_def)
  moreover have "fst ` set ?hs = insert n (fst ` set (extra_headers a))"
    by (simp add: keys_dict_update)
  ultimately show ?thesis
    by (simp add: APIKeyAuth_get_auth_data_def sel)
qed

theorem api_key_auth_data_witness:
  "APIKeyAuth_get_auth_data (APIKeyAuth_init ''K'' ''cookie'' ''x-api-key'' None)
     = Inl (ValueError ''Invalid API key location'')
   \<and> (\<exists>hs. APIKeyAuth_get_auth_data
               (APIKeyAuth_init ''K'' ''header'' ''x-api-key'' (Some [(''Accept'', ''application/json'')]))
             = Inr \<lparr>ad_headers = hs, ad_params = []\<rparr>
          \<and> map_of hs ''Accept'' = Some ''application/json''
          \<and> map_of hs ''x-api-key'' = Some ''K'')
   \<and> APIKeyAuth_get_auth_data
        (APIKeyAuth_init ''K'' ''query'' ''appid'' (Some [(''Accept'', ''application/json'')]))
      = Inr \<lparr>ad_headers = [(''Accept'', ''application/json'')], ad_params = [(''appid'', JStr ''K'')]\<rparr>"
proof -
  have 1: "APIKeyAuth_get_auth_data (APIKeyAuth_init ''K'' ''cookie'' ''x-api-key'' None)
     = Inl (ValueError ''Invalid API key location'')"
    using api_key_auth_data [OF refl, of "''K''" "''cookie''" "''x-api-key''" None]
    by (simp add: APIKeyAuth_init_def)
  have 2: "\<exists>hs. APIKeyAuth_get_auth_data
               (APIKeyAuth_init ''K'' ''header'' ''x-api-key'' (Some [(''Accept'', ''application/json'')]))
             = Inr \<lparr>ad_headers = hs, ad_params = []\<rparr>
          \<and> map_of hs ''Accept'' = Some ''application/json''
          \<and> map_of hs ''x-api-key'' = Some ''K''"
  proof -
    let ?a = "APIKeyAuth_init ''K'' ''header'' ''x-api-key'' (Some [(''Accept'', ''application/json'')])"
    have d: "distinct (map fst (extra_headers ?a))" by (simp add: APIKeyAuth_init_def)
    note ex = api_key_auth_data [OF refl d, THEN conjunct2, THEN conjunct1, THEN mp, OF refl]
    have acc: "map_of (extra_headers ?a) ''Accept'' = Some ''application/json''"
      by (simp add: APIKeyAuth_init_def)
    have nokey: "map_of (extra_headers ?a) ''x-api-key'' = None"
      by (simp add: APIKeyAuth_init_def)
    from ex show ?thesis
    proof (elim exE conjE)
      fix hs
      assume hs: "APIKeyAuth_get_auth_data ?a = Inr \<lparr>ad_headers = hs, ad_params = []\<rparr>"
        and e: "\<forall>h v. map_of (extra_headers ?a) h = Some v \<longrightarrow> map_of hs h = Some v"
        and k: "map_of (extra_headers ?a) ''x-api-key'' = None \<longrightarrow> map_of hs ''x-api-key'' = Some ''K''"
      from e [THEN spec, THEN spec, THEN mp, OF acc] k [THEN mp, OF nokey] hs
      show ?thesis by (intro exI conjI)
    qed
  qed
  have 3: "APIKeyAuth_get_auth_data
        (APIKeyAuth_init ''K'' ''query'' ''appid'' (Some [(''Accept'', ''application/json'')]))
      = Inr \<lparr>ad_headers = [(''Accept'', ''application/json'')], ad_params = [(''appid'', JStr ''K'')]\<rparr>"
    using api_key_auth_data [OF refl, of "''K''" "''query''" "''appid''" "Some [(''Accept'', ''application/json'')]"]
    by (simp add: APIKeyAuth_init_def)
  from 1 2 3 show ?thesis by blast
qed

text \<open>
  Claim C8 as stated fails where an extra header has the name that carries the key:
  \<^verbatim>\<open>headers.update(self.extra_headers)\<close> replaces the key, which is then in no header.
\<close>

theorem api_key_header_collision_counterexample:
  "APIKeyAuth_get_auth_data
     (APIKeyAuth_init ''K'' ''header'' ''x-api-key'' (Some [(''x-api-key'', ''other'')]))
   = Inr \<lparr>ad_headers = [(''x-api-key'', ''other'')], ad_params = []\<rparr>
   \<and> map_of [(''x-api-key'', ''other'')] ''x-api-key'' \<noteq> Some ''K''"
  by (simp add: APIKeyAuth_get_auth_data_def APIKeyAuth_init_def dict_update_def dict_set_def)

subsection \<open>Client credentials: the token fetch\<close>

lemma authenticate_unfold:
  "authenticate a w =
     (let w1 = w\<lparr>token_posts := token_posts w @ [token_request_of a]\<rparr> in
      case token_endpoint w (length (token_posts w)) (token_request_of a) of
        Inl e \<Rightarrow> (Inl e, a, w1)
      | Inr resp \<Rightarrow>
          if raises_for_status (status_code resp) then (Inl (HTTPError (status_code resp)), a, w1)
          else (case body resp of
                  None \<Rightarrow> (Inl JSONDecodeError, a, w1)
                | Some token_data \<Rightarrow>
                    (case token_data of
                       JObj d \<Rightarrow>
                         (case map_of d ''access_token'' of
                            None \<Rightarrow> (Inl (KeyError ''access_token''), a, w1)
                          | Some t \<Rightarrow>
                              (case py_float_add (clock w (clock_reads w))
                                      (dict_get d ''expires_in'' (JInt 3600)) of
                                 Inl e \<Rightarrow>
                                   (Inl e, a\<lparr>access_token := t\<rparr>,
                                    w1\<lparr>clock_reads := Suc (clock_reads w)\<rparr>)
                               | Inr x \<Rightarrow>
                                   (Inr (), a\<lparr>access_token := t, expiry_time := x\<rparr>,
                                    w1\<lparr>clock_reads := Suc (clock_reads w)\<rparr>)))
                     | _ \<Rightarrow> (Inl TypeError, a, w1))))"
  by (simp add: authenticate_def requests_post_def time_time_def token_request_of_def Let_def
      split: sum.splits option.splits json.splits)

lemma authenticate_world:
  "authenticate a w = (r, a1, w1)
   \<Longrightarrow> w1 = w\<lparr>token_posts := token_posts w @ [token_request_of a]\<rparr>
     \<or> w1 = w\<lparr>token_posts := token_posts w @ [token_request_of a],
              clock_reads := Suc (clock_reads w)\<rparr>"
  by (auto simp: authenticate_unfold Let_def split: sum.splits option.splits json.splits if_splits)

lemma float_add_exact:
  "\<bar>x\<bar> < 2 ^ 52 \<Longrightarrow> \<bar>n\<bar> < 2 ^ 52 \<Longrightarrow> py_float_add x (JInt n) = Inr (Finite (x + n))"
proof -
  assume x: "\<bar>x\<bar> < 2 ^ 52" and n: "\<bar>n\<bar> < 2 ^ 52"
  have "(2::int) ^ 53 = 2 * 2 ^ 52" by simp
  with x n have s: "\<bar>x + n\<bar> < 2 ^ 53" by linarith
  from n have n53: "\<bar>n\<bar> < 2 ^ 53" by simp
  have "(2::int) ^ 52 \<le> 2 ^ 1024 - 2 ^ 970" by simp
  with n have small: "\<not> \<bar>n\<bar> \<ge> 2 ^ 1024 - 2 ^ 970" by linarith
  have "(2::int) ^ 53 \<le> 2 ^ 1024" by simp
  with s have "x + n < 2 ^ 1024" and "- (2 ^ 1024) < x + n" by linarith+
  with s n53 small show ?thesis
    by (simp add: to_double_def round53_def float_add_def del: abs_less_iff)
qed

text \<open>
  Claim C4. When the token endpoint answers with a status that \<^verbatim>\<open>raise_for_status\<close>
  accepts and a JSON object: a body without \<^verbatim>\<open>access_token\<close> makes \<^verbatim>\<open>_authenticate\<close>
  fail, with the \<^verbatim>\<open>KeyError\<close> of \<^verbatim>\<open>token_data["access_token"]\<close> (the failure the
  specification files under AuthenticationError), and leaves the cached token and expiry as
  they were. Whenever \<^verbatim>\<open>_authenticate\<close> succeeds, the token cached is the body's
  \<^verbatim>\<open>access_token\<close> and the expiry is the floating-point sum of the current time and
  \<^verbatim>\<open>expires_in\<close>, 3600 when the body has none; it succeeds whenever that sum does not
  raise. When the sum raises (\<^verbatim>\<open>OverflowError\<close> for an integer too large for a float,
  \<^verbatim>\<open>TypeError\<close> for a value that is not a number), \<^verbatim>\<open>_authenticate\<close> raises that
  error with the new token cached and the expiry as it was. For a time and an
  \<^verbatim>\<open>expires_in\<close> below \<open>2^52\<close> the sum is the exact one.
\<close>

theorem authenticate_token_body:
  assumes "token_endpoint w (length (token_posts w)) (token_request_of a) = Inr resp"
    and "\<not> raises_for_status (status_code resp)"
    and "body resp = Some (JObj d)"
  shows "(map_of d ''access_token'' = None \<longrightarrow>
            authenticate a w
              = (Inl (KeyError ''access_token''), a,
                 w\<lparr>token_posts := token_posts w @ [token_request_of a]\<rparr>))
       \<and> (\<forall>a1 w1. authenticate a w = (Inr (), a1, w1) \<longrightarrow>
            map_of d ''access_token'' = Some (access_token a1)
            \<and> py_float_add (clock w (clock_reads w))
                  (case map_of d ''expires_in'' of None \<Rightarrow> JInt 3600 | Some v \<Rightarrow> v)
                = Inr (expiry_time a1))
       \<and> (\<forall>t x. map_of d ''access_token'' = Some t \<longrightarrow>
            py_float_add (clock w (clock_reads w))
                (case map_of d ''expires_in'' of None \<Rightarrow> JInt 3600 | Some v \<Rightarrow> v) = Inr x \<longrightarrow>
            authenticate a w
              = (Inr (), a\<lparr>access_token := t, expiry_time := x\<rparr>,
                 w\<lparr>token_posts := token_posts w @ [token_request_of a],
                   clock_reads := Suc (clock_reads w)\<rparr>))
       \<and> (\<forall>t e. map_of d ''access_token'' = Some t \<longrightarrow>
            py_float_add (clock w (clock_reads w))
                (case map_of d ''expires_in'' of None \<Rightarrow> JInt 3600 | Some v \<Rightarrow> v) = Inl e \<longrightarrow>
            authenticate a w
              = (Inl e, a\<lparr>access_token := t\<rparr>,
                 w\<lparr>token_posts := token_posts w @ [token_request_of a],
                   clock_reads := Suc (clock_reads w)\<rparr>))
       \<and> (\<forall>n. \<bar>clock w (clock_reads w)\<bar> < 2 ^ 52 \<longrightarrow> \<bar>n\<bar> < 2 ^ 52 \<longrightarrow>
            py_float_add (clock w (clock_reads w)) (JInt n)
              = Inr (Finite (clock w (clock_reads w) + n)))"
proof (intro conjI allI impI)
  assume "map_of d ''access_token'' = None"
  with assms show "authenticate a w
              = (Inl (KeyError ''access_token''), a,
                 w\<lparr>token_posts := token_posts w @ [token_request_of a]\<rparr>)"
    by (simp add: authenticate_unfold)
next
  fix a1 w1
  assume "authenticate a w = (Inr (), a1, w1)"
  with assms show "map_of d ''access_token'' = Some (access_token a1)"
    by (auto simp: authenticate_unfold Let_def split: option.splits sum.splits)
next
  fix a1 w1
  assume "authenticate a w = (Inr (), a1, w1)"
  with assms show "py_float_add (clock w (clock_reads w))
                  (case map_of d ''expires_in'' of None \<Rightarrow> JInt 3600 | Some v \<Rightarrow> v)
                = Inr (expiry_time a1)"
    by (auto simp: authenticate_unfold Let_def dict_get_def split: option.splits sum.splits)
next
  fix t x
  assume "map_of d ''access_token'' = Some t"
    and "py_float_add (clock w (clock_reads w))
                (case map_of d ''expires_in'' of None \<Rightarrow> JInt 3600 | Some v \<Rightarrow> v) = Inr x"
  with assms show "authenticate a w
              = (Inr (), a\<lparr>access_token := t, expiry_time := x\<rparr>,
                 w\<lparr>token_posts := token_posts w @ [token_request_of a],
                   clock_reads := Suc (clock_reads w)\<rparr>)"
    by (simp add: authenticate_unfold Let_def dict_get_def)
next
  fix t e
  assume "map_of d ''access_token'' = Some t"
    and "py_float_add (clock w (clock_reads w))
                (case map_of d ''expires_in'' of None \<Rightarrow> JInt 3600 | Some v \<Rightarrow> v) = Inl e"
  with assms show "authenticate a w
              = (Inl e, a\<lparr>access_token := t\<rparr>,
                 w\<lparr>token_posts := token_posts w @ [token_request_of a],
                   clock_reads := Suc (clock_reads w)\<rparr>)"
    by (simp add: authenticate_unfold Let_def dict_get_def)
next
  fix n :: int
  assume "\<bar>clock w (clock_reads w)\<bar> < 2 ^ 52" and "\<bar>n\<bar> < 2 ^ 52"
  then show "py_float_add (clock w (clock_reads w)) (JInt n)
              = Inr (Finite (clock w (clock_reads w) + n))"
    by (rule float_add_exact)
qed

theorem authenticate_token_body_witness:
  "(\<exists>w1. authenticate example_cc no_token_world = (Inl (KeyError ''access_token''), example_cc, w1))
   \<and> (\<exists>w1. authenticate example_cc token_world
              = (Inr (), example_cc\<lparr>access_token := JStr ''T0'', expiry_time := Finite 3700\<rparr>, w1))
   \<and> (\<exists>w1. authenticate example_cc overflow_token_world
              = (Inl OverflowError, example_cc\<lparr>access_token := JStr ''T0''\<rparr>, w1))"
proof -
  have v: "token_endpoint overflow_token_world (length (token_posts overflow_token_world))
             (token_request_of example_cc)
           = Inr \<lparr>status_code = 200,
                  body = Some (JObj [(''access_token'', JStr ''T0''),
                                     (''expires_in'', JInt (10 ^ 309))])\<rparr>"
    by (simp add: overflow_token_world_def token_world_def)
  have vtok: "map_of [(''access_token'', JStr ''T0''), (''expires_in'', JInt (10 ^ 309))]
                ''access_token'' = Some (JStr ''T0'')"
    by simp
  have vsum: "py_float_add (clock overflow_token_world (clock_reads overflow_token_world))
               (case map_of [(''access_token'', JStr ''T0''), (''expires_in'', JInt (10 ^ 309))]
                       ''expires_in'' of
                  None \<Rightarrow> JInt 3600 | Some v \<Rightarrow> v) = Inl OverflowError"
    by (simp add: to_double_def)
  have n: "token_endpoint no_token_world (length (token_posts no_token_world))
             (token_request_of example_cc)
           = Inr \<lparr>status_code = 200, body = Some (JObj [(''expires_in'', JInt 60)])\<rparr>"
    by (simp add: no_token_world_def token_world_def)
  have t: "token_endpoint token_world (length (token_posts token_world)) (token_request_of example_cc)
           = Inr \<lparr>status_code = 200, body = Some (JObj [(''access_token'', JStr ''T0'')])\<rparr>"
    by (simp add: token_world_def)
  have ok: "\<not> raises_for_status (status_code \<lparr>status_code = 200, body = b\<rparr>)" for b
    by (simp add: raises_for_status_def)
  have c: "clock token_world (clock_reads token_world) = 100" by (simp add: token_world_def)
  have sum: "py_float_add (clock token_world (clock_reads token_world))
               (case map_of [(''access_token'', JStr ''T0'')] ''expires_in'' of
                  None \<Rightarrow> JInt 3600 | Some v \<Rightarrow> v) = Inr (Finite 3700)"
    by (simp add: c to_double_def round53_def float_add_def)
  have tok: "map_of [(''access_token'', JStr ''T0'')] ''access_token'' = Some (JStr ''T0'')"
    by simp
  have nok: "map_of [(''expires_in'', JInt 60)] ''access_token'' = None"
    by simp
  from authenticate_token_body [OF n ok, THEN conjunct1, THEN mp, OF _ nok]
  have 1: "\<exists>w1. authenticate example_cc no_token_world
                 = (Inl (KeyError ''access_token''), example_cc, w1)"
    by simp
  from authenticate_token_body [OF t ok, THEN conjunct2, THEN conjunct2, THEN conjunct1,
      THEN spec, THEN spec, THEN mp, THEN mp, OF _ tok sum]
  have 2: "\<exists>w1. authenticate example_cc token_world
              = (Inr (), example_cc\<lparr>access_token := JStr ''T0'', expiry_time := Finite 3700\<rparr>, w1)"
    by simp
  from authenticate_token_body [OF v ok, THEN conjunct2, THEN conjunct2, THEN conjunct2,
      THEN conjunct1, THEN spec, THEN spec, THEN mp, THEN mp, OF _ vtok vsum]
  have 3: "\<exists>w1. authenticate example_cc overflow_token_world
              = (Inl OverflowError, example_cc\<lparr>access_token := JStr ''T0''\<rparr>, w1)"
    by simp
  from 1 2 3 show ?thesis by (intro conjI)
qed

subsection \<open>Client credentials: the cached token\<close>

lemma authenticate_posts:
  "authenticate a w = (r, a1, w1) \<Longrightarrow> length (token_posts w1) = Suc (length (token_posts w))"
  by (drule authenticate_world) auto

lemma get_auth_data_fetch:
  "fetch_needed a w \<Longrightarrow>
   ClientCredentialsAuth_get_auth_data a w =
     (case authenticate a (if \<not> truthy (access_token a) then w
                           else w\<lparr>clock_reads := Suc (clock_reads w)\<rparr>) of
        (Inl e, a1, w1) \<Rightarrow> (Inl e, a1, w1)
      | (Inr u, a1, w1) \<Rightarrow>
          (Inr \<lparr>ad_headers = [(''Authorization'', bearer (access_token a1))], ad_params = []\<rparr>, a1, w1))"
  by (auto simp: ClientCredentialsAuth_get_auth_data_def fetch_needed_def time_time_def
      split: prod.splits sum.splits)

lemma get_auth_data_cached:
  "\<not> fetch_needed a w \<Longrightarrow>
   ClientCredentialsAuth_get_auth_data a w =
     (Inr \<lparr>ad_headers = [(''Authorization'', bearer (access_token a))], ad_params = []\<rparr>,
      a, w\<lparr>clock_reads := Suc (clock_reads w)\<rparr>)"
  by (auto simp: ClientCredentialsAuth_get_auth_data_def fetch_needed_def time_time_def
      split: prod.splits sum.splits)

text \<open>
  Claim C3, as amended. A call of \<^verbatim>\<open>get_auth_data\<close> sends one request to the token
  endpoint when the cached token is false for Python (\<^verbatim>\<open>None\<close>, the empty string, ...) or
  the clock has reached the cached expiry, and none otherwise. A new
  \<^verbatim>\<open>ClientCredentialsAuth\<close> has no token, so its first call fetches once; a call before
  the expiry with a true token cached fetches nothing; a call at or after the expiry fetches
  once more. A call that returns gives the header \<^verbatim>\<open>Authorization\<close> with
  \<^verbatim>\<open>f"Bearer {token}"\<close> for the token cached when it returns, and no query parameters.
  It returns whenever no fetch is needed, and whenever the token endpoint answers the fetch
  with a JSON object that has an \<^verbatim>\<open>access_token\<close> and the expiry can be computed.
\<close>

theorem get_auth_data_fetches:
  "(case ClientCredentialsAuth_get_auth_data a w of
      (r, a1, w1) \<Rightarrow>
        length (token_posts w1)
          = length (token_posts w) + (if fetch_needed a w then 1 else 0)
        \<and> (\<forall>ad. r = Inr ad \<longrightarrow>
              ad = \<lparr>ad_headers = [(''Authorization'', ''Bearer '' @ py_str (access_token a1))],
                    ad_params = []\<rparr>)
        \<and> (\<not> fetch_needed a w \<longrightarrow> (\<exists>ad. r = Inr ad) \<and> a1 = a)
        \<and> (\<forall>resp d t x. fetch_needed a w
              \<and> token_endpoint w (length (token_posts w)) (token_request_of a) = Inr resp
              \<and> \<not> raises_for_status (status_code resp) \<and> body resp = Some (JObj d)
              \<and> map_of d ''access_token'' = Some t
              \<and> py_float_add (clock w (if truthy (access_token a) then Suc (clock_reads w)
                                         else clock_reads w))
                    (dict_get d ''expires_in'' (JInt 3600)) = Inr x
              \<longrightarrow> (\<exists>ad. r = Inr ad) \<and> access_token a1 = t \<and> expiry_time a1 = x))
   \<and> fetch_needed (ClientCredentialsAuth_init url cid secret) w"
proof (rule conjI)
  show "fetch_needed (ClientCredentialsAuth_init url cid secret) w"
    by (simp add: fetch_needed_def ClientCredentialsAuth_init_def)
next
  show "case ClientCredentialsAuth_get_auth_data a w of
      (r, a1, w1) \<Rightarrow>
        length (token_posts w1)
          = length (token_posts w) + (if fetch_needed a w then 1 else 0)
        \<and> (\<forall>ad. r = Inr ad \<longrightarrow>
              ad = \<lparr>ad_headers = [(''Authorization'', ''Bearer '' @ py_str (access_token a1))],
                    ad_params = []\<rparr>)
        \<and> (\<not> fetch_needed a w \<longrightarrow> (\<exists>ad. r = Inr ad) \<and> a1 = a)
        \<and> (\<forall>resp d t x. fetch_needed a w
              \<and> token_endpoint w (length (token_posts w)) (token_request_of a) = Inr resp
              \<and> \<not> raises_for_status (status_code resp) \<and> body resp = Some (JObj d)
              \<and> map_of d ''access_token'' = Some t
              \<and> py_float_add (clock w (if truthy (access_token a) then Suc (clock_reads w)
                                         else clock_reads w))
                    (dict_get d ''expires_in'' (JInt 3600)) = Inr x
              \<longrightarrow> (\<exists>ad. r = Inr ad) \<and> access_token a1 = t \<and> expiry_time a1 = x)"
  proof (cases "fetch_needed a w")
    case True
    let ?w = "if \<not> truthy (access_token a) then w else w\<lparr>clock_reads := Suc (clock_reads w)\<rparr>"
    obtain r a1 w1 where au: "authenticate a ?w = (r, a1, w1)"
      by (rule prod_cases3)
    from authenticate_posts [OF au]
    have len: "length (token_posts w1) = Suc (length (token_posts w))"
      by (simp split: if_splits)
    have ok: "(\<exists>u. r = Inr u) \<and> access_token a1 = t \<and> expiry_time a1 = x"
      if "token_endpoint w (length (token_posts w)) (token_request_of a) = Inr resp"
        and "\<not> raises_for_status (status_code resp)" and "body resp = Some (JObj d)"
        and "map_of d ''access_token'' = Some t"
        and "py_float_add (clock w (if truthy (access_token a) then Suc (clock_reads w)
                                         else clock_reads w))
                    (dict_get d ''expires_in'' (JInt 3600)) = Inr x"
      for resp d t x
    proof -
      from that(1) have "token_endpoint ?w (length (token_posts ?w)) (token_request_of a) = Inr resp"
        by simp
      moreover from that(5)
      have "py_float_add (clock ?w (clock_reads ?w)) (dict_get d ''expires_in'' (JInt 3600)) = Inr x"
        by (simp split: if_splits)
      ultimately show ?thesis
        using that(2-4) au
        by (auto simp: authenticate_unfold [of a ?w] Let_def simp del: if_split split: if_splits)
    qed
    let ?r = "case r of Inl e \<Rightarrow> Inl e
              | Inr u \<Rightarrow> Inr \<lparr>ad_headers = [(''Authorization'', bearer (access_token a1))],
                                ad_params = []\<rparr>"
    from True au have res: "ClientCredentialsAuth_get_auth_data a w = (?r, a1, w1)"
      by (simp add: get_auth_data_fetch split: sum.splits)
    have 1: "length (token_posts w1)
          = length (token_posts w) + (if fetch_needed a w then 1 else 0)"
      using len True by simp
    have 2: "\<forall>ad. ?r = Inr ad \<longrightarrow>
              ad = \<lparr>ad_headers = [(''Authorization'', ''Bearer '' @ py_str (access_token a1))],
                    ad_params = []\<rparr>"
      by (cases r) (auto simp: bearer_def)
    have 3: "\<not> fetch_needed a w \<longrightarrow> (\<exists>ad. ?r = Inr ad) \<and> a1 = a"
      using True by simp
    have 4: "\<forall>resp d t x. fetch_needed a w
              \<and> token_endpoint w (length (token_posts w)) (token_request_of a) = Inr resp
              \<and> \<not> raises_for_status (status_code resp) \<and> body resp = Some (JObj d)
              \<and> map_of d ''access_token'' = Some t
              \<and> py_float_add (clock w (if truthy (access_token a) then Suc (clock_reads w)
                                         else clock_reads w))
                    (dict_get d ''expires_in'' (JInt 3600)) = Inr x
              \<longrightarrow> (\<exists>ad. ?r = Inr ad) \<and> access_token a1 = t \<and> expiry_time a1 = x"
    proof (intro allI impI)
      fix resp d t x
      assume h: "fetch_needed a w
              \<and> token_endpoint w (length (token_posts w)) (token_request_of a) = Inr resp
              \<and> \<not> raises_for_status (status_code resp) \<and> body resp = Some (JObj d)
              \<and> map_of d ''access_token'' = Some t
              \<and> py_float_add (clock w (if truthy (access_token a) then Suc (clock_reads w)
                                         else clock_reads w))
                    (dict_get d ''expires_in'' (JInt 3600)) = Inr x"
      from h have "(\<exists>u. r = Inr u) \<and> access_token a1 = t \<and> expiry_time a1 = x"
        by (intro ok [of resp d t x]) simp_all
      then show "(\<exists>ad. ?r = Inr ad) \<and> access_token a1 = t \<and> expiry_time a1 = x"
        by (cases r) auto
    qed
    from 1 2 3 4 show ?thesis
      unfolding res prod.case by (intro conjI)
  next
    case False
    then show ?thesis by (simp add: get_auth_data_cached bearer_def)
  qed
qed

theorem get_auth_data_fetches_witness:
  "(case ClientCredentialsAuth_get_auth_data example_cc token_world of
      (r1, a1, w1) \<Rightarrow>
        (case ClientCredentialsAuth_get_auth_data a1 w1 of
           (r2, a2, w2) \<Rightarrow>
             (case ClientCredentialsAuth_get_auth_data a2 w2 of
                (r3, a3, w3) \<Rightarrow>
                  length (token_posts w1) = 1 \<and> length (token_posts w2) = 1
                  \<and> length (token_posts w3) = 2
                  \<and> r1 = Inr \<lparr>ad_headers = [(''Authorization'', ''Bearer T0'')], ad_params = []\<rparr>
                  \<and> r2 = Inr \<lparr>ad_headers = [(''Authorization'', ''Bearer T0'')], ad_params = []\<rparr>
                  \<and> r3 = Inr \<lparr>ad_headers = [(''Authorization'', ''Bearer T1'')], ad_params = []\<rparr>)))"
  using get_auth_data_fetches [where a = example_cc and w = token_world]
    get_auth_data_fetches
      [where a = "example_cc\<lparr>access_token := JStr ''T0'', expiry_time := Finite 3700\<rparr>"
         and w = "token_world\<lparr>token_posts := [token_request_of example_cc], clock_reads := 1\<rparr>"]
  by (simp add: ClientCredentialsAuth_get_auth_data_def authenticate_def requests_post_def
      time_time_def bearer_def py_str_def raises_for_status_def example_cc_def dict_get_def
      to_double_def round53_def float_add_def
      ClientCredentialsAuth_init_def token_world_def fetch_needed_def token_request_of_def)

text \<open>
  Claim C3 as stated fails in two ways. A token endpoint that hands out the empty string as
  the token: the token is cached with an expiry 3600 seconds ahead, and the second call,
  before that expiry, fetches again, since \<^verbatim>\<open>not self.access_token\<close> is true of \<^verbatim>\<open>""\<close>.
  A token endpoint that answers 500: the call raises and returns no headers.
\<close>

theorem get_auth_data_empty_token_counterexample:
  "(case ClientCredentialsAuth_get_auth_data example_cc empty_token_world of
      (r1, a1, w1) \<Rightarrow>
        (case ClientCredentialsAuth_get_auth_data a1 w1 of
           (r2, a2, w2) \<Rightarrow>
             length (token_posts w1) = 1 \<and> access_token a1 = JStr []
             \<and> \<not> time_ge (clock w1 (clock_reads w1)) (expiry_time a1)
             \<and> length (token_posts w2) = 2))
   \<and> fst (ClientCredentialsAuth_get_auth_data example_cc down_token_world) = Inl (HTTPError 500)"
  by (simp add: ClientCredentialsAuth_get_auth_data_def authenticate_def requests_post_def
      time_time_def bearer_def raises_for_status_def example_cc_def dict_get_def
      to_double_def round53_def float_add_def
      ClientCredentialsAuth_init_def token_world_def empty_token_world_def down_token_world_def)

subsection \<open>What authentication leaves alone\<close>

lemma authenticate_frame:
  "authenticate a w = (r, a1, w1) \<Longrightarrow> sent w1 = sent w \<and> api w1 = api w \<and> heap w1 = heap w"
  by (drule authenticate_world) auto

lemma cc_get_auth_data_frame:
  "ClientCredentialsAuth_get_auth_data a w = (r, a1, w1)
   \<Longrightarrow> sent w1 = sent w \<and> api w1 = api w \<and> heap w1 = heap w"
proof (cases "fetch_needed a w")
  case True
  assume g: "ClientCredentialsAuth_get_auth_data a w = (r, a1, w1)"
  obtain r' a' w' where au:
    "authenticate a (if \<not> truthy (access_token a) then w
                     else w\<lparr>clock_reads := Suc (clock_reads w)\<rparr>) = (r', a', w')"
    by (rule prod_cases3)
  from authenticate_frame [OF au] have "sent w' = sent w \<and> api w' = api w \<and> heap w' = heap w"
    by (simp split: if_splits)
  moreover from g au True have "w1 = w'"
    by (auto simp: get_auth_data_fetch split: sum.splits)
  ultimately show ?thesis by simp
next
  case False
  assume "ClientCredentialsAuth_get_auth_data a w = (r, a1, w1)"
  with False show ?thesis by (auto simp: get_auth_data_cached)
qed

lemma get_auth_data_frame:
  "get_auth_data a w = (r, a1, w1) \<Longrightarrow> sent w1 = sent w \<and> api w1 = api w \<and> heap w1 = heap w"
proof (cases a)
  case (APIKeyAuth k)
  assume "get_auth_data a w = (r, a1, w1)"
  with APIKeyAuth show ?thesis by simp
next
  case (ClientCredentialsAuth cc)
  assume g: "get_auth_data a w = (r, a1, w1)"
  obtain r' a' w' where c: "ClientCredentialsAuth_get_auth_data cc w = (r', a', w')"
    by (rule prod_cases3)
  with g ClientCredentialsAuth have "w1 = w'" by simp
  with cc_get_auth_data_frame [OF c] show ?thesis by simp
qed

lemma get_auth_data_kind:
  "get_auth_data a w = (r, a1, w1) \<Longrightarrow> is_ClientCredentialsAuth a1 = is_ClientCredentialsAuth a"
  by (cases a) (auto split: prod.splits)

lemma auth_force_refresh_frame:
  "auth_force_refresh a w = (r, a1, w1) \<Longrightarrow> sent w1 = sent w \<and> api w1 = api w \<and> heap w1 = heap w"
proof (cases a)
  case (APIKeyAuth k)
  assume "auth_force_refresh a w = (r, a1, w1)"
  with APIKeyAuth show ?thesis by simp
next
  case (ClientCredentialsAuth cc)
  assume g: "auth_force_refresh a w = (r, a1, w1)"
  obtain r' a' w' where c:
    "authenticate (cc\<lparr>access_token := JNull, expiry_time := Finite 0\<rparr>) w = (r', a', w')"
    by (rule prod_cases3)
  with g ClientCredentialsAuth have "w1 = w'" by (simp add: force_refresh_def)
  with authenticate_frame [OF c] show ?thesis by simp
qed

subsection \<open>The request executor\<close>

lemma make_request_unfold:
  "make_request c w meth endpoint ps kwargs =
     (case get_auth_data (auth c) w of
        (Inl e, a1, w1) \<Rightarrow> (Inl e, c\<lparr>auth := a1\<rparr>, w1)
      | (Inr ad, a1, w1) \<Rightarrow>
          (let rq = request_of c meth endpoint ps kwargs ad;
               w2 = w1\<lparr>sent := sent w @ [rq]\<rparr>
           in case api w (length (sent w)) rq of
                Inl e \<Rightarrow> (Inl e, c\<lparr>auth := a1\<rparr>, w2)
              | Inr resp \<Rightarrow>
                  if status_code resp = 401 \<and> is_ClientCredentialsAuth (auth c) then
                    (case auth_force_refresh a1 w2 of
                       (Inl e, a2, w3) \<Rightarrow> (Inl e, c\<lparr>auth := a2\<rparr>, w3)
                     | (Inr u, a2, w3) \<Rightarrow>
                         (case get_auth_data a2 w3 of
                            (Inl e, a3, w4) \<Rightarrow> (Inl e, c\<lparr>auth := a3\<rparr>, w4)
                          | (Inr ad2, a3, w4) \<Rightarrow>
                              (case api w (Suc (length (sent w))) (rq\<lparr>req_headers := ad_headers ad2\<rparr>) of
                                 Inl e \<Rightarrow> Inl e
                               | Inr resp2 \<Rightarrow> finish resp2,
                               c\<lparr>auth := a3\<rparr>,
                               w4\<lparr>sent := sent w @ [rq, rq\<lparr>req_headers := ad_headers ad2\<rparr>]\<rparr>)))
                  else (finish resp, c\<lparr>auth := a1\<rparr>, w2)))"
proof -
  obtain r a1 w1 where g: "get_auth_data (auth c) w = (r, a1, w1)" by (rule prod_cases3)
  note f1 = get_auth_data_frame [OF g] and k1 = get_auth_data_kind [OF g]
  show ?thesis
  proof (cases r)
    case (Inl e)
    with g show ?thesis by (simp add: make_request_def)
  next
    case (Inr ad)
    let ?rq = "request_of c meth endpoint ps kwargs ad"
    let ?w2 = "w1\<lparr>sent := sent w @ [?rq]\<rparr>"
    have rr: "requests_request w1 ?rq = (api w (length (sent w)) ?rq, ?w2)"
      by (simp add: requests_request_def f1)
    obtain r2 a2 w3 where fr: "auth_force_refresh a1 ?w2 = (r2, a2, w3)" by (rule prod_cases3)
    note f2 = auth_force_refresh_frame [OF fr]
    obtain r3 a3 w4 where g2: "get_auth_data a2 w3 = (r3, a3, w4)" by (rule prod_cases3)
    note f3 = get_auth_data_frame [OF g2]
    have rr2: "requests_request w4 rq' = (api w (Suc (length (sent w))) rq',
                 w4\<lparr>sent := sent w @ [?rq, rq']\<rparr>)" for rq'
      by (simp add: requests_request_def f1 f2 f3)
    show ?thesis
      using g Inr
      by (simp add: make_request_def Let_def rr rr2 fr g2 k1 request_of_def [symmetric]
          split: sum.splits)
  qed
qed


lemma make_request_cases:
  "(case make_request c w meth endpoint ps kwargs of
      (r, c', w') \<Rightarrow>
        (\<exists>new. sent w' = sent w @ new \<and> length new \<le> 2
            \<and> (\<not> is_ClientCredentialsAuth (auth c) \<longrightarrow> length new \<le> 1))
        \<and> (\<forall>ad a1 w1 resp a2 w3 ad2 a3 w4.
              is_ClientCredentialsAuth (auth c) \<longrightarrow>
              get_auth_data (auth c) w = (Inr ad, a1, w1) \<longrightarrow>
              api w (length (sent w)) (request_of c meth endpoint ps kwargs ad) = Inr resp \<longrightarrow>
              status_code resp = 401 \<longrightarrow>
              auth_force_refresh a1 (w1\<lparr>sent := sent w @ [request_of c meth endpoint ps kwargs ad]\<rparr>)
                = (Inr (), a2, w3) \<longrightarrow>
              get_auth_data a2 w3 = (Inr ad2, a3, w4) \<longrightarrow>
                sent w' = sent w @ [request_of c meth endpoint ps kwargs ad,
                                    (request_of c meth endpoint ps kwargs ad)
                                      \<lparr>req_headers := ad_headers ad2\<rparr>]
                \<and> c' = c\<lparr>auth := a3\<rparr>
                \<and> w' = w4\<lparr>sent := sent w @ [request_of c meth endpoint ps kwargs ad,
                                               (request_of c meth endpoint ps kwargs ad)
                                                 \<lparr>req_headers := ad_headers ad2\<rparr>]\<rparr>
                \<and> r = (case api w (Suc (length (sent w)))
                                 ((request_of c meth endpoint ps kwargs ad)
                                    \<lparr>req_headers := ad_headers ad2\<rparr>) of
                         Inl e \<Rightarrow> Inl e
                       | Inr resp2 \<Rightarrow> finish resp2)))"
proof -
  obtain r0 a1 w1 where g: "get_auth_data (auth c) w = (r0, a1, w1)" by (rule prod_cases3)
  note f1 = get_auth_data_frame [OF g]
  show ?thesis
  proof (cases r0)
    case (Inl e)
    with g f1 show ?thesis by (simp add: make_request_unfold Let_def)
  next
    case (Inr ad)
    let ?rq = "request_of c meth endpoint ps kwargs ad"
    let ?w2 = "w1\<lparr>sent := sent w @ [?rq]\<rparr>"
    show ?thesis
    proof (cases "api w (length (sent w)) ?rq")
      case (Inl e)
      with g Inr show ?thesis by (simp add: make_request_unfold Let_def)
    next
      case resp: (Inr resp)
      show ?thesis
      proof (cases "status_code resp = 401 \<and> is_ClientCredentialsAuth (auth c)")
        case False
        with g Inr resp show ?thesis by (auto simp: make_request_unfold Let_def)
      next
        case True
        obtain r2 a2 w3 where fr: "auth_force_refresh a1 ?w2 = (r2, a2, w3)" by (rule prod_cases3)
        note f2 = auth_force_refresh_frame [OF fr]
        show ?thesis
        proof (cases r2)
          case (Inl e)
          with g Inr resp True fr f2 show ?thesis by (simp add: make_request_unfold Let_def)
        next
          case u: (Inr u)
          obtain r3 a3 w4 where g2: "get_auth_data a2 w3 = (r3, a3, w4)" by (rule prod_cases3)
          note f3 = get_auth_data_frame [OF g2]
          show ?thesis
          proof (cases r3)
            case (Inl e)
            with g Inr resp True fr u g2 f2 f3 show ?thesis by (simp add: make_request_unfold Let_def)
          next
            case ad2: (Inr ad2)
            with g Inr resp True fr u g2 show ?thesis by (simp add: make_request_unfold Let_def)
          qed
        qed
      qed
    qed
  qed
qed


lemma cc_get_auth_data_posts:
  assumes "ClientCredentialsAuth_get_auth_data a w = (r, a1, w1)"
  shows "length (token_posts w) \<le> length (token_posts w1)"
proof (cases "fetch_needed a w")
  case True
  obtain r' a' w' where au:
    "authenticate a (if \<not> truthy (access_token a) then w
                     else w\<lparr>clock_reads := Suc (clock_reads w)\<rparr>) = (r', a', w')"
    by (rule prod_cases3)
  from authenticate_posts [OF au] have "length (token_posts w') = Suc (length (token_posts w))"
    by (simp split: if_splits)
  moreover from assms au True have "w1 = w'"
    by (auto simp: get_auth_data_fetch split: sum.splits)
  ultimately show ?thesis by simp
next
  case False
  with assms show ?thesis by (auto simp: get_auth_data_cached)
qed

lemma get_auth_data_posts:
  assumes "get_auth_data a w = (r, a1, w1)"
  shows "length (token_posts w) \<le> length (token_posts w1)"
proof (cases a)
  case (APIKeyAuth k)
  with assms show ?thesis by simp
next
  case (ClientCredentialsAuth cc)
  obtain r' a' w' where c: "ClientCredentialsAuth_get_auth_data cc w = (r', a', w')"
    by (rule prod_cases3)
  with assms ClientCredentialsAuth have "w1 = w'" by simp
  with cc_get_auth_data_posts [OF c] show ?thesis by simp
qed

lemma auth_force_refresh_posts:
  assumes "auth_force_refresh a w = (r, a1, w1)" and "is_ClientCredentialsAuth a"
  shows "length (token_posts w1) = Suc (length (token_posts w))"
proof (cases a)
  case (APIKeyAuth k)
  with assms(2) show ?thesis by simp
next
  case (ClientCredentialsAuth cc)
  obtain r' a' w' where c: "authenticate (cc\<lparr>access_token := JNull, expiry_time := Finite 0\<rparr>) w = (r', a', w')"
    by (rule prod_cases3)
  with assms(1) ClientCredentialsAuth have "w1 = w'" by (simp add: force_refresh_def)
  with authenticate_posts [OF c] show ?thesis by simp
qed

lemma make_request_refresh_attempted:
  assumes mr: "make_request c w meth endpoint ps kwargs = (r, c', w')"
    and cc: "is_ClientCredentialsAuth (auth c)"
    and g: "get_auth_data (auth c) w = (Inr ad, a1, w1)"
    and resp: "api w (length (sent w)) (request_of c meth endpoint ps kwargs ad) = Inr resp"
    and st: "status_code resp = 401"
  shows "length (token_posts w1) < length (token_posts w')"
proof -
  let ?rq = "request_of c meth endpoint ps kwargs ad"
  let ?w2 = "w1\<lparr>sent := sent w @ [?rq]\<rparr>"
  obtain r2 a2 w3 where fr: "auth_force_refresh a1 ?w2 = (r2, a2, w3)" by (rule prod_cases3)
  from get_auth_data_kind [OF g] cc have "is_ClientCredentialsAuth a1" by simp
  from auth_force_refresh_posts [OF fr this]
  have p3: "length (token_posts w3) = Suc (length (token_posts w1))" by simp
  obtain r3 a3 w4 where g2: "get_auth_data a2 w3 = (r3, a3, w4)" by (rule prod_cases3)
  note p4 = get_auth_data_posts [OF g2]
  from mr g resp st cc fr g2 have "token_posts w' = token_posts w3 \<or> token_posts w' = token_posts w4"
    by (auto simp: make_request_unfold Let_def split: sum.splits)
  with p3 p4 show ?thesis by auto
qed

text \<open>
  Claim C2. A call of \<^verbatim>\<open>_make_request\<close> sends at most two requests, and at most one when
  the strategy is not \<^verbatim>\<open>ClientCredentialsAuth\<close>. With \<^verbatim>\<open>ClientCredentialsAuth\<close>, when
  the first response has status 401 and \<^verbatim>\<open>force_refresh\<close> and the \<^verbatim>\<open>get_auth_data\<close>
  after it return, the call has sent exactly the first request and the same request again
  (method, URL, parameters and body unchanged) with the headers of the fresh auth data;
  the outcome is that of the second response alone, whatever its status. The refresh is
  attempted on every such 401: the token endpoint has received a request after the first
  response, also when the refresh then fails.
\<close>

theorem make_request_retry:
  assumes "make_request c w meth endpoint ps kwargs = (r, c', w')"
  shows "(\<exists>new. sent w' = sent w @ new \<and> length new \<le> 2
            \<and> (\<not> is_ClientCredentialsAuth (auth c) \<longrightarrow> length new \<le> 1))
        \<and> (\<forall>ad a1 w1 resp.
              is_ClientCredentialsAuth (auth c) \<longrightarrow>
              get_auth_data (auth c) w = (Inr ad, a1, w1) \<longrightarrow>
              api w (length (sent w)) (request_of c meth endpoint ps kwargs ad) = Inr resp \<longrightarrow>
              status_code resp = 401 \<longrightarrow>
                length (token_posts w1) < length (token_posts w'))
        \<and> (\<forall>ad a1 w1 resp a2 w3 ad2 a3 w4.
              is_ClientCredentialsAuth (auth c) \<longrightarrow>
              get_auth_data (auth c) w = (Inr ad, a1, w1) \<longrightarrow>
              api w (length (sent w)) (request_of c meth endpoint ps kwargs ad) = Inr resp \<longrightarrow>
              status_code resp = 401 \<longrightarrow>
              auth_force_refresh a1 (w1\<lparr>sent := sent w @ [request_of c meth endpoint ps kwargs ad]\<rparr>)
                = (Inr (), a2, w3) \<longrightarrow>
              get_auth_data a2 w3 = (Inr ad2, a3, w4) \<longrightarrow>
                sent w' = sent w @ [request_of c meth endpoint ps kwargs ad,
                                    (request_of c meth endpoint ps kwargs ad)
                                      \<lparr>req_headers := ad_headers ad2\<rparr>]
                \<and> c' = c\<lparr>auth := a3\<rparr>
                \<and> w' = w4\<lparr>sent := sent w @ [request_of c meth endpoint ps kwargs ad,
                                               (request_of c meth endpoint ps kwargs ad)
                                                 \<lparr>req_headers := ad_headers ad2\<rparr>]\<rparr>
                \<and> r = (case api w (Suc (length (sent w)))
                                 ((request_of c meth endpoint ps kwargs ad)
                                    \<lparr>req_headers := ad_headers ad2\<rparr>) of
                         Inl e \<Rightarrow> Inl e
                       | Inr resp2 \<Rightarrow> finish resp2))"
proof -
  note t = make_request_cases [where c = c and w = w and meth = meth and endpoint = endpoint
      and ps = ps and kwargs = kwargs, unfolded assms prod.case]
  have "\<forall>ad a1 w1 resp.
          is_ClientCredentialsAuth (auth c) \<longrightarrow>
          get_auth_data (auth c) w = (Inr ad, a1, w1) \<longrightarrow>
          api w (length (sent w)) (request_of c meth endpoint ps kwargs ad) = Inr resp \<longrightarrow>
          status_code resp = 401 \<longrightarrow>
            length (token_posts w1) < length (token_posts w')"
    using make_request_refresh_attempted [OF assms] by blast
  with t [THEN conjunct1] t [THEN conjunct2] show ?thesis by (intro conjI)
qed


theorem make_request_retry_witness:
  "(case make_request cc_client unauthorized_world ''GET'' ''/orders'' None [] of
      (r, c', w') \<Rightarrow>
        r = Inl (HTTPError 401)
        \<and> sent w' =
            [\<lparr>req_method = ''GET'', req_url = ''https://x.com/orders'',
              req_headers = [(''Authorization'', ''Bearer T0'')], req_params = [], req_kwargs = []\<rparr>,
             \<lparr>req_method = ''GET'', req_url = ''https://x.com/orders'',
              req_headers = [(''Authorization'', ''Bearer T1'')], req_params = [], req_kwargs = []\<rparr>])"
proof -
  let ?w = unauthorized_world
  let ?tr = "token_request_of example_cc"
  let ?ad = "\<lparr>ad_headers = [(''Authorization'', ''Bearer T0'')], ad_params = []\<rparr>"
  let ?ad2 = "\<lparr>ad_headers = [(''Authorization'', ''Bearer T1'')], ad_params = []\<rparr>"
  let ?a1 = "ClientCredentialsAuth (example_cc\<lparr>access_token := JStr ''T0'', expiry_time := Finite 3700\<rparr>)"
  let ?a2 = "ClientCredentialsAuth (example_cc\<lparr>access_token := JStr ''T1'', expiry_time := Finite 3700\<rparr>)"
  let ?w1 = "?w\<lparr>token_posts := [?tr], clock_reads := 1\<rparr>"
  let ?rq = "request_of cc_client ''GET'' ''/orders'' None [] ?ad"
  let ?w3 = "?w\<lparr>token_posts := [?tr, ?tr], clock_reads := 2, sent := [?rq]\<rparr>"
  let ?w4 = "?w\<lparr>token_posts := [?tr, ?tr], clock_reads := 3, sent := [?rq]\<rparr>"
  note defs = unauthorized_world_def token_world_def cc_client_def example_cc_def
    ClientCredentialsAuth_init_def ClientCredentialsAuth_get_auth_data_def authenticate_def
    force_refresh_def requests_post_def time_time_def bearer_def py_str_def dict_get_def
    to_double_def round53_def float_add_def
    raises_for_status_def token_request_of_def
  have h1: "is_ClientCredentialsAuth (auth cc_client)" by (simp add: cc_client_def)
  have h2: "get_auth_data (auth cc_client) ?w = (Inr ?ad, ?a1, ?w1)" by (simp add: defs)
  have h3: "api ?w (length (sent ?w)) ?rq = Inr \<lparr>status_code = 401, body = None\<rparr>"
    by (simp add: defs)
  have h4: "status_code \<lparr>status_code = 401, body = None\<rparr> = 401" by simp
  have h5: "auth_force_refresh ?a1 (?w1\<lparr>sent := sent ?w @ [?rq]\<rparr>) = (Inr (), ?a2, ?w3)"
    by (simp add: defs)
  have h6: "get_auth_data ?a2 ?w3 = (Inr ?ad2, ?a2, ?w4)" by (simp add: defs)
  obtain r c' w' where mr: "make_request cc_client ?w ''GET'' ''/orders'' None [] = (r, c', w')"
    by (rule prod_cases3)
  note t = make_request_retry [OF mr, THEN conjunct2, THEN conjunct2, rule_format, OF h1 h2 h3 h4 h5 h6]
  have s: "sent ?w = []" by (simp add: defs)
  have rq: "?rq = \<lparr>req_method = ''GET'', req_url = ''https://x.com/orders'',
              req_headers = [(''Authorization'', ''Bearer T0'')], req_params = [], req_kwargs = []\<rparr>"
    by (simp add: request_of_def make_url_def lstrip_slash_def cc_client_def dict_update_def)
  from t have 1: "r = Inl (HTTPError 401)"
    by (simp add: defs finish_def)
  from t have 2: "sent w' =
            [\<lparr>req_method = ''GET'', req_url = ''https://x.com/orders'',
              req_headers = [(''Authorization'', ''Bearer T0'')], req_params = [], req_kwargs = []\<rparr>,
             \<lparr>req_method = ''GET'', req_url = ''https://x.com/orders'',
              req_headers = [(''Authorization'', ''Bearer T1'')], req_params = [], req_kwargs = []\<rparr>]"
    by (simp add: s rq)
  show ?thesis unfolding mr prod.case using 1 2 by (rule conjI)
qed

subsection \<open>The store during a request\<close>

lemma make_request_heap:
  assumes "make_request c w meth endpoint ps kwargs = (r, c1, w1)"
  shows "heap w1 = heap w"
proof -
  obtain r0 a1 w0 where g: "get_auth_data (auth c) w = (r0, a1, w0)" by (rule prod_cases3)
  note f1 = get_auth_data_frame [OF g]
  show ?thesis
  proof (cases r0)
    case (Inl e)
    with g f1 assms show ?thesis by (simp add: make_request_unfold)
  next
    case (Inr ad)
    let ?rq = "request_of c meth endpoint ps kwargs ad"
    let ?w2 = "w0\<lparr>sent := sent w @ [?rq]\<rparr>"
    obtain r2 a2 w3 where fr: "auth_force_refresh a1 ?w2 = (r2, a2, w3)" by (rule prod_cases3)
    note f2 = auth_force_refresh_frame [OF fr]
    obtain r3 a3 w4 where g2: "get_auth_data a2 w3 = (r3, a3, w4)" by (rule prod_cases3)
    note f3 = get_auth_data_frame [OF g2]
    from assms g Inr fr g2 f1 f2 f3 show ?thesis
      by (auto simp: make_request_unfold Let_def split: sum.splits if_splits)
  qed
qed

lemma get_heap:
  assumes "get c w endpoint ps = (r, c1, w1)"
  shows "heap w1 = heap w"
proof -
  obtain r0 c0 w0 where m: "make_request c w ''GET'' endpoint ps [] = (r0, c0, w0)"
    by (rule prod_cases3)
  from assms m have "w1 = w0" by (auto simp: get_def split: sum.splits option.splits)
  with make_request_heap [OF m] show ?thesis by simp
qed

lemma offset_body_heap:
  assumes "offset_body c w endpoint a ofield lim off tc res = (fl, vs, c1, w1)"
  shows "heap w1 = (heap w)[a := dict_set (heap w ! a) ofield (JInt off)]"
proof -
  let ?w1 = "w\<lparr>heap := (heap w)[a := dict_set (heap w ! a) ofield (JInt off)]\<rparr>"
  obtain g c0 w0 where get: "get c ?w1 endpoint (Some (heap ?w1 ! a)) = (g, c0, w0)"
    by (rule prod_cases3)
  from assms get have "w1 = w0"
    by (auto simp: offset_body_def Let_def split: sum.splits json.splits option.splits if_splits)
  with get_heap [OF get] show ?thesis by simp
qed

lemma offset_loop_heap:
  assumes "offset_loop c w endpoint a ofield lim off tc res = Some y"
  shows "length (heap (snd (snd y))) = length (heap w)
         \<and> (\<forall>p. p \<noteq> a \<longrightarrow> heap (snd (snd y)) ! p = heap w ! p)"
  using assms
proof (induction c w endpoint a ofield lim off tc res y
    rule: offset_loop.raw_induct [rotated 1, consumes 1, case_names step])
  case 1: (step loop c w endpoint a ofield lim off tc res y)
  obtain fl off1 tc1 res1 c1 w1 where b:
    "offset_body c w endpoint a ofield lim off tc res = (fl, (off1, tc1, res1), c1, w1)"
    by (metis prod_cases3)
  note h = offset_body_heap [OF b]
  show ?case
  proof (cases fl)
    case Continue
    with 1(2) b have "loop c1 w1 endpoint a ofield lim off1 tc1 res1 = Some y" by simp
    from 1(1) [OF this] h show ?thesis by simp
  next
    case Break
    with 1(2) b h show ?thesis by auto
  next
    case (Raise e)
    with 1(2) b h show ?thesis by auto
  qed
qed


lemma page_loop_heap:
  "page_loop c w endpoint a pfield page res = (r, c', w')
   \<Longrightarrow> length (heap w') = length (heap w) \<and> (\<forall>p. p \<noteq> a \<longrightarrow> heap w' ! p = heap w ! p)"
proof (induction "nat (4 - page)" arbitrary: c w page res rule: less_induct)
  case less
  let ?w1 = "w\<lparr>heap := (heap w)[a := dict_set (heap w ! a) pfield (JInt page)]\<rparr>"
  obtain g c0 w0 where get: "get c ?w1 endpoint (Some (heap ?w1 ! a)) = (g, c0, w0)"
    by (rule prod_cases3)
  note h = get_heap [OF get]
  from less.prems get
  have "w' = w0 \<or> (page \<le> 3 \<and> (\<exists>res1. page_loop c0 w0 endpoint a pfield (page + 1) res1 = (r, c', w')))"
    by (subst (asm) page_loop.simps)
       (auto simp: Let_def split: sum.splits json.splits option.splits if_splits)
  then show ?case
  proof
    assume "w' = w0"
    with h show ?thesis by simp
  next
    assume "page \<le> 3 \<and> (\<exists>res1. page_loop c0 w0 endpoint a pfield (page + 1) res1 = (r, c', w'))"
    then obtain res1 where p: "page \<le> 3"
      and rec: "page_loop c0 w0 endpoint a pfield (page + 1) res1 = (r, c', w')"
      by blast
    from p have "nat (4 - (page + 1)) < nat (4 - page)" by simp
    from less.hyps [OF this rec] h show ?thesis by simp
  qed
qed

lemma has_more_loop_heap:
  "has_more_loop c w endpoint a hfield iteration res = (r, c', w') \<Longrightarrow> heap w' = heap w"
proof (induction "nat (3 - iteration)" arbitrary: c w iteration res rule: less_induct)
  case less
  obtain g c0 w0 where get: "get c w endpoint (Some (heap w ! a)) = (g, c0, w0)"
    by (rule prod_cases3)
  note h = get_heap [OF get]
  from less.prems get
  have "w' = w0 \<or> (iteration < 2
          \<and> (\<exists>res1. has_more_loop c0 w0 endpoint a hfield (iteration + 1) res1 = (r, c', w')))"
    by (subst (asm) has_more_loop.simps)
       (auto simp: Let_def split: sum.splits json.splits option.splits if_splits)
  then show ?case
  proof
    assume "w' = w0"
    with h show ?thesis by simp
  next
    assume "iteration < 2
          \<and> (\<exists>res1. has_more_loop c0 w0 endpoint a hfield (iteration + 1) res1 = (r, c', w'))"
    then obtain res1 where p: "iteration < 2"
      and rec: "has_more_loop c0 w0 endpoint a hfield (iteration + 1) res1 = (r, c', w')"
      by blast
    from p have "nat (3 - (iteration + 1)) < nat (3 - iteration)" by simp
    from less.hyps [OF this rec] h show ?thesis by simp
  qed
qed

lemma copy_params_heap:
  "copy_params ps w = (a, w0) \<Longrightarrow> a = length (heap w) \<and> (\<exists>d. heap w0 = heap w @ [d])"
  by (auto simp: copy_params_def alloc_def split: option.splits if_splits)

subsection \<open>A run of the OFFSET strategy\<close>

lemma get_api_key_client:
  "get api_key_client w ''/orders'' (Some ps)
     = (case api w (length (sent w)) (orders_request (dict_update [] ps)) of
          Inl e \<Rightarrow> Inl e
        | Inr resp \<Rightarrow>
            if raises_for_status (status_code resp) then Inl (HTTPError (status_code resp))
            else (case body resp of None \<Rightarrow> Inl JSONDecodeError | Some j \<Rightarrow> Inr j),
        api_key_client, w\<lparr>sent := sent w @ [orders_request (dict_update [] ps)]\<rparr>)"
  by (simp add: get_def make_request_unfold api_key_client_def example_auth_def
      APIKeyAuth_get_auth_data_def request_of_def orders_request_def make_url_def
      lstrip_slash_def dict_update_def finish_def Let_def split: sum.splits option.splits)

lemma offset_run:
  assumes "p1 \<noteq> []" and "p2 \<noteq> []"
  shows "get_all api_key_client (paged_world [p1, p2, p3] [[(''limit'', JInt 10)]]) ''/orders''
           (Some 0) ''offset'' default_fields
         = Some (Inr (p1 @ p2 @ p3), api_key_client,
                 (paged_world [p1, p2, p3] [[(''limit'', JInt 10)]])
                   \<lparr>sent := [orders_request [(''limit'', JInt 10), (''offset'', JInt 0)],
                             orders_request [(''limit'', JInt 10), (''offset'', JInt 10)],
                             orders_request [(''limit'', JInt 10), (''offset'', JInt 20)]],
                     heap := [[(''limit'', JInt 10)],
                              [(''limit'', JInt 10), (''offset'', JInt 20)]]\<rparr>)"
  apply (simp add: get_all_def copy_params_def alloc_def paged_world_def default_fields_def
      dict_get_def)
  apply (subst offset_loop.simps)
  apply (simp add: offset_body_def get_api_key_client dict_set_def dict_update_def dict_get_def
      raises_for_status_def assms)
  apply (subst offset_loop.simps)
  apply (simp add: offset_body_def get_api_key_client dict_set_def dict_update_def dict_get_def
      raises_for_status_def assms)
  apply (subst offset_loop.simps)
  apply (simp add: offset_body_def get_api_key_client dict_set_def dict_update_def dict_get_def
      raises_for_status_def assms)
  done


text \<open>
  Claim C5. OFFSET strategy with \<^verbatim>\<open>limit=10\<close> against the mock endpoint whose pages hold
  10, 10 and 5 items and are empty afterwards: \<^verbatim>\<open>get_all\<close> returns the 25 items of the
  three pages in fetch order, after exactly three requests, at the offsets 0, 10 and 20
  (all below the ceiling of 25); the empty fourth page is never asked for.
\<close>

theorem offset_three_pages:
  assumes "length p1 = 10" and "length p2 = 10" and "length p3 = 5"
  shows "\<exists>w'. get_all api_key_client (paged_world [p1, p2, p3] [[(''limit'', JInt 10)]]) ''/orders''
                 (Some 0) ''offset'' default_fields
               = Some (Inr (p1 @ p2 @ p3), api_key_client, w')
              \<and> length (p1 @ p2 @ p3) = 25
              \<and> map (\<lambda>rq. map_of (req_params rq) ''offset'') (sent w')
                  = [Some (JInt 0), Some (JInt 10), Some (JInt 20)]"
proof -
  from assms have "p1 \<noteq> []" and "p2 \<noteq> []" by auto
  from offset_run [OF this, of p3] assms show ?thesis
    by (simp add: orders_request_def)
qed

theorem offset_three_pages_witness:
  "\<exists>w'. get_all api_key_client
            (paged_world [replicate 10 (JInt 1), replicate 10 (JInt 2), replicate 5 (JInt 3)]
               [[(''limit'', JInt 10)]])
            ''/orders'' (Some 0) ''offset'' default_fields
          = Some (Inr (replicate 10 (JInt 1) @ replicate 10 (JInt 2) @ replicate 5 (JInt 3)),
                  api_key_client, w')
         \<and> map (\<lambda>rq. map_of (req_params rq) ''offset'') (sent w')
             = [Some (JInt 0), Some (JInt 10), Some (JInt 20)]"
proof -
  have "length (replicate 10 (JInt 1)) = 10" "length (replicate 10 (JInt 2)) = 10"
    "length (replicate 5 (JInt 3)) = 5"
    by simp_all
  from offset_three_pages [OF this] show ?thesis
  proof (elim exE conjE)
    fix w'
    assume "get_all api_key_client
            (paged_world [replicate 10 (JInt 1), replicate 10 (JInt 2), replicate 5 (JInt 3)]
               [[(''limit'', JInt 10)]])
            ''/orders'' (Some 0) ''offset'' default_fields
          = Some (Inr (replicate 10 (JInt 1) @ replicate 10 (JInt 2) @ replicate 5 (JInt 3)),
                  api_key_client, w')"
      and "map (\<lambda>rq. map_of (req_params rq) ''offset'') (sent w')
             = [Some (JInt 0), Some (JInt 10), Some (JInt 20)]"
    then show ?thesis by (intro exI conjI)
  qed
qed

subsection \<open>The caller's parameters\<close>

text \<open>
  Claim C10. \<^verbatim>\<open>get_all\<close> works on a dictionary of its own: when the call returns, with a
  result or with an exception, every dictionary that existed before the call (the caller's
  \<^verbatim>\<open>params\<close> among them) holds exactly the entries it held before.
\<close>

theorem get_all_keeps_caller_params:
  assumes "get_all c w endpoint ps strategy fs = Some (r, c', w')"
    and "p < length (heap w)"
  shows "heap w' ! p = heap w ! p"
proof -
  obtain a w0 where cp: "copy_params ps w = (a, w0)" by (rule prod.exhaust)
  from copy_params_heap [OF cp] obtain d where a: "a = length (heap w)"
    and h0: "heap w0 = heap w @ [d]" by blast
  from assms(2) a h0 have pa: "p \<noteq> a" and p0: "heap w0 ! p = heap w ! p"
    by (simp_all add: nth_append)
  consider (offset) "strategy = ''offset''" | (page) "strategy = ''page''"
    | (has_more) "strategy = ''has_more''"
    | (other) "strategy \<noteq> ''offset''" "strategy \<noteq> ''page''" "strategy \<noteq> ''has_more''"
    by blast
  then show ?thesis
  proof cases
    case offset
    with assms(1) cp
    have "offset_loop c w0 endpoint a (offset_field fs)
            (dict_get (heap w0 ! a) (limit_field fs) (JInt 50)) 0 JNull [] = Some (r, c', w')"
      by (simp add: get_all_def)
    from offset_loop_heap [OF this] pa p0 show ?thesis by simp
  next
    case page
    with assms(1) cp
    have "page_loop c w0 endpoint a (page_field fs) 1 [] = (r, c', w')"
      by (simp add: get_all_def)
    from page_loop_heap [OF this] pa p0 show ?thesis by simp
  next
    case has_more
    with assms(1) cp
    have "has_more_loop c w0 endpoint a (has_more_field fs) 0 [] = (r, c', w')"
      by (simp add: get_all_def)
    from has_more_loop_heap [OF this] p0 show ?thesis by simp
  next
    case other
    with assms(1) cp have "w' = w0" by (simp add: get_all_def)
    with p0 show ?thesis by simp
  qed
qed


theorem get_all_keeps_caller_params_witness:
  "(case get_all api_key_client (paged_world [[JInt 1], [JInt 2], []] [[(''limit'', JInt 10)]])
           ''/orders'' (Some 0) ''offset'' default_fields of
      Some (r, c', w') \<Rightarrow> heap w' ! 0 = [(''limit'', JInt 10)]
    | None \<Rightarrow> False)"
proof -
  let ?w = "paged_world [[JInt 1], [JInt 2], []] [[(''limit'', JInt 10)]]"
  have "[JInt 1] \<noteq> []" and "[JInt 2] \<noteq> []" by simp_all
  note g = offset_run [OF this, of "[]"]
  have p: "0 < length (heap ?w)" by (simp add: paged_world_def)
  have h: "heap ?w ! 0 = [(''limit'', JInt 10)]" by (simp add: paged_world_def)
  from get_all_keeps_caller_params [OF g p] h show ?thesis
    by (simp only: g option.case prod.case)
qed

subsection \<open>The OFFSET loop\<close>

lemma py_iter_truthy: "py_iter d = Some items \<Longrightarrow> truthy d = (items \<noteq> [])"
  by (cases d) auto

lemma py_int_JNull: "py_int tc = Some t \<Longrightarrow> tc \<noteq> JNull"
  by auto

lemma offset_body_ok:
  assumes "get c (w\<lparr>heap := (heap w)[a := dict_set (heap w ! a) ofield (JInt off)]\<rparr>) endpoint
             (Some ((heap w)[a := dict_set (heap w ! a) ofield (JInt off)] ! a))
           = (Inr (JObj r), c1, w1)"
    and "py_iter (dict_get r ''orders'' (JList [])) = Some items"
    and "py_int lim = Some n"
    and "tc1 = (if tc = JNull then dict_get r ''total_count'' JNull else tc)"
    and "tc1 = JNull \<or> (\<exists>t. py_int tc1 = Some t)"
  shows "offset_body c w endpoint a ofield lim off tc res =
           (if off + n \<ge> 25 \<or> (\<exists>t. py_int tc1 = Some t \<and> off + n \<ge> t) \<or> items = []
            then Break else Continue,
            (off + n, tc1, res @ items), c1, w1)"
proof -
  note t = py_iter_truthy [OF assms(2)]
  from assms(5) show ?thesis
  proof
    assume "tc1 = JNull"
    with assms(1-4) t show ?thesis
      by (simp add: offset_body_def Let_def)
  next
    assume "\<exists>t. py_int tc1 = Some t"
    then obtain k where k: "py_int tc1 = Some k" ..
    with py_int_JNull have "tc1 \<noteq> JNull" by blast
    with assms(1-3) assms(4) [symmetric] t k show ?thesis
      by (simp add: offset_body_def Let_def)
  qed
qed


lemma offset_body_Continue:
  "offset_body c w endpoint a ofield lim off tc res = (Continue, (off1, tc1, res1), c1, w1)
   \<Longrightarrow> py_int lim = Some n \<Longrightarrow> off1 = off + n \<and> off1 < 25"
  by (auto simp: offset_body_def Let_def
      split: prod.splits sum.splits json.splits option.splits if_splits)

lemma offset_loop_returns:
  "py_int lim = Some n \<Longrightarrow> 0 < n
   \<Longrightarrow> \<exists>y. offset_loop c w endpoint a ofield lim off tc res = Some y"
proof (induction "nat (25 - off)" arbitrary: c w off tc res rule: less_induct)
  case less
  obtain fl off1 tc1 res1 c1 w1 where b:
    "offset_body c w endpoint a ofield lim off tc res = (fl, (off1, tc1, res1), c1, w1)"
    by (metis prod_cases3)
  show ?case
  proof (cases fl)
    case Continue
    from offset_body_Continue [OF b [unfolded Continue] less.prems(1)]
    have "off1 = off + n" and "off1 < 25" by auto
    with less.prems(2) have "nat (25 - off1) < nat (25 - off)" by simp
    from less.hyps [OF this less.prems]
    obtain y where "offset_loop c1 w1 endpoint a ofield lim off1 tc1 res1 = Some y" by blast
    moreover have "offset_loop c w endpoint a ofield lim off tc res
                     = offset_loop c1 w1 endpoint a ofield lim off1 tc1 res1"
      by (subst offset_loop.simps) (simp add: b Continue)
    ultimately show ?thesis by metis
  next
    case Break
    with b show ?thesis by (subst offset_loop.simps) simp
  next
    case (Raise e)
    with b show ?thesis by (subst offset_loop.simps) simp
  qed
qed

text \<open>
  Claim C6, as amended. \<^verbatim>\<open>get_all\<close> with the OFFSET strategy starts the loop at offset 0,
  with no total count and no results, on its own copy of the parameters. An iteration
  fetches with the current offset in the parameters, appends the page and adds the limit to
  the offset. The total count, while unknown, is read from the response; once known it is
  kept. The loop stops after this fetch exactly when the new offset has reached 25, or the
  total count is known and the new offset has reached it, or the page is empty; otherwise it
  goes on from the new offset. With a positive limit the loop returns. (The iteration is
  stated for a fetch that succeeds with a JSON object, a page that has a length, and a
  limit and a total count that are numbers.)
\<close>

theorem offset_loop_iteration:
  assumes "get c (w\<lparr>heap := (heap w)[a := dict_set (heap w ! a) ofield (JInt off)]\<rparr>) endpoint
             (Some ((heap w)[a := dict_set (heap w ! a) ofield (JInt off)] ! a))
           = (Inr (JObj r), c1, w1)"
    and "py_iter (dict_get r ''orders'' (JList [])) = Some items"
    and "py_int lim = Some n"
    and "tc1 = (if tc = JNull then dict_get r ''total_count'' JNull else tc)"
    and "tc1 = JNull \<or> (\<exists>t. py_int tc1 = Some t)"
  shows "offset_loop c w endpoint a ofield lim off tc res =
           (if off + n \<ge> 25 \<or> (\<exists>t. py_int tc1 = Some t \<and> off + n \<ge> t) \<or> items = []
            then Some (Inr (res @ items), c1, w1)
            else offset_loop c1 w1 endpoint a ofield lim (off + n) tc1 (res @ items))
       \<and> (case copy_params ps w of
            (a0, w0) \<Rightarrow>
              get_all c w endpoint ps ''offset'' fs
                = offset_loop c w0 endpoint a0 (offset_field fs)
                    (dict_get (heap w0 ! a0) (limit_field fs) (JInt 50)) 0 JNull [])
       \<and> (0 < n \<longrightarrow> (\<exists>y. offset_loop c w endpoint a ofield lim off tc res = Some y))"
proof -
  have "offset_loop c w endpoint a ofield lim off tc res =
           (if off + n \<ge> 25 \<or> (\<exists>t. py_int tc1 = Some t \<and> off + n \<ge> t) \<or> items = []
            then Some (Inr (res @ items), c1, w1)
            else offset_loop c1 w1 endpoint a ofield lim (off + n) tc1 (res @ items))"
  proof (cases "off + n \<ge> 25 \<or> (\<exists>t. py_int tc1 = Some t \<and> off + n \<ge> t) \<or> items = []")
    case True
    with offset_body_ok [OF assms, of res]
    have "offset_body c w endpoint a ofield lim off tc res
            = (Break, (off + n, tc1, res @ items), c1, w1)"
      by simp
    then have "offset_loop c w endpoint a ofield lim off tc res = Some (Inr (res @ items), c1, w1)"
      by (subst offset_loop.simps) simp
    then show ?thesis by (simp only: if_P [OF True])
  next
    case False
    with offset_body_ok [OF assms, of res]
    have "offset_body c w endpoint a ofield lim off tc res
            = (Continue, (off + n, tc1, res @ items), c1, w1)"
      by simp
    then have "offset_loop c w endpoint a ofield lim off tc res
                 = offset_loop c1 w1 endpoint a ofield lim (off + n) tc1 (res @ items)"
      by (subst offset_loop.simps) simp
    then show ?thesis by (simp only: if_not_P [OF False])
  qed
  moreover have "case copy_params ps w of
            (a0, w0) \<Rightarrow>
              get_all c w endpoint ps ''offset'' fs
                = offset_loop c w0 endpoint a0 (offset_field fs)
                    (dict_get (heap w0 ! a0) (limit_field fs) (JInt 50)) 0 JNull []"
    by (simp add: get_all_def split: prod.splits)
  moreover have "0 < n \<longrightarrow> (\<exists>y. offset_loop c w endpoint a ofield lim off tc res = Some y)"
    using offset_loop_returns [OF assms(3)] by blast
  ultimately show ?thesis by (intro conjI)
qed

theorem offset_loop_iteration_witness:
  "offset_loop api_key_client
     (paged_world [[JInt 1], [JInt 2]] [[(''limit'', JInt 10)], [(''limit'', JInt 10)]])
     ''/orders'' 1 ''offset'' (JInt 10) 0 JNull []
   = offset_loop api_key_client
       ((paged_world [[JInt 1], [JInt 2]] [[(''limit'', JInt 10)], [(''limit'', JInt 10)]])
          \<lparr>sent := [orders_request [(''limit'', JInt 10), (''offset'', JInt 0)]],
            heap := [[(''limit'', JInt 10)], [(''limit'', JInt 10), (''offset'', JInt 0)]]\<rparr>)
       ''/orders'' 1 ''offset'' (JInt 10) 10 JNull [JInt 1]"
proof -
  let ?w = "paged_world [[JInt 1], [JInt 2]] [[(''limit'', JInt 10)], [(''limit'', JInt 10)]]"
  let ?w1 = "?w\<lparr>sent := [orders_request [(''limit'', JInt 10), (''offset'', JInt 0)]],
                heap := [[(''limit'', JInt 10)], [(''limit'', JInt 10), (''offset'', JInt 0)]]\<rparr>"
  let ?r = "[(''orders'', JList [JInt 1])]"
  have g: "get api_key_client
             (?w\<lparr>heap := (heap ?w)[1 := dict_set (heap ?w ! 1) ''offset'' (JInt 0)]\<rparr>) ''/orders''
             (Some ((heap ?w)[1 := dict_set (heap ?w ! 1) ''offset'' (JInt 0)] ! 1))
           = (Inr (JObj ?r), api_key_client, ?w1)"
    by (simp add: get_api_key_client paged_world_def dict_set_def dict_update_def
        raises_for_status_def)
  have i: "py_iter (dict_get ?r ''orders'' (JList [])) = Some [JInt 1]"
    by (simp add: dict_get_def)
  have l: "py_int (JInt 10) = Some 10" by simp
  have t: "JNull = (if JNull = JNull then dict_get ?r ''total_count'' JNull else JNull)"
    by (simp add: dict_get_def)
  have k: "JNull = JNull \<or> (\<exists>t. py_int JNull = Some t)" by simp
  from offset_loop_iteration [OF g i l t k, THEN conjunct1] show ?thesis by simp
qed

text \<open>
  Claim C6 as stated fails at the ceiling itself. With \<^verbatim>\<open>limit=25\<close> the first fetch
  brings a non-empty page without a total count and moves the offset to 25, which does not
  exceed 25; the mock endpoint has a second page, and the code stops after one request.
\<close>

theorem offset_ceiling_counterexample:
  "get_all api_key_client (paged_world [[JInt 1], [JInt 2]] [[(''limit'', JInt 25)]]) ''/orders''
     (Some 0) ''offset'' default_fields
   = Some (Inr [JInt 1], api_key_client,
           (paged_world [[JInt 1], [JInt 2]] [[(''limit'', JInt 25)]])
             \<lparr>sent := [orders_request [(''limit'', JInt 25), (''offset'', JInt 0)]],
               heap := [[(''limit'', JInt 25)], [(''limit'', JInt 25), (''offset'', JInt 0)]]\<rparr>)
   \<and> \<not> claimed_offset_stop (0 + 25) JNull [JInt 1]"
  apply (simp add: get_all_def copy_params_def alloc_def paged_world_def default_fields_def
      dict_get_def claimed_offset_stop_def)
  apply (subst offset_loop.simps)
  apply (simp add: offset_body_def get_api_key_client dict_set_def dict_update_def dict_get_def
      raises_for_status_def)
  done


subsection \<open>Errors of the underlying get\<close>

lemma page_loop_unfold:
  "page_loop c w endpoint a pfield pg res =
     (case page_body c w endpoint a pfield pg res of
        (Continue, (pg1, res1), c1, w1) \<Rightarrow> page_loop c1 w1 endpoint a pfield pg1 res1
      | (Break, (pg1, res1), c1, w1) \<Rightarrow> (Inr res1, c1, w1)
      | (Raise e, vs, c1, w1) \<Rightarrow> (Inl e, c1, w1))"
  by (subst page_loop.simps)
     (simp add: page_body_def Let_def split: prod.splits sum.splits json.splits option.splits)

lemma has_more_loop_unfold:
  "has_more_loop c w endpoint a hfield it res =
     (case has_more_body c w endpoint a hfield it res of
        (Continue, (it1, res1), c1, w1) \<Rightarrow> has_more_loop c1 w1 endpoint a hfield it1 res1
      | (Break, (it1, res1), c1, w1) \<Rightarrow> (Inr res1, c1, w1)
      | (Raise e, vs, c1, w1) \<Rightarrow> (Inl e, c1, w1))"
  by (subst has_more_loop.simps)
     (simp add: has_more_body_def Let_def split: prod.splits sum.splits json.splits option.splits)

lemma offset_loop_passes:
  "passes n (offset_pass endpoint a ofield lim) ((off, tc, res), c, w) = Some ((off1, tc1, res1), c1, w1)
   \<Longrightarrow> offset_loop c w endpoint a ofield lim off tc res
       = offset_loop c1 w1 endpoint a ofield lim off1 tc1 res1"
proof (induction n arbitrary: off tc res c w)
  case 0
  then show ?case by simp
next
  case (Suc n)
  obtain fl off2 tc2 res2 c2 w2 where b:
    "offset_body c w endpoint a ofield lim off tc res = (fl, (off2, tc2, res2), c2, w2)"
    by (metis surj_pair)
  with Suc.prems have fl: "fl = Continue"
    and rest: "passes n (offset_pass endpoint a ofield lim) ((off2, tc2, res2), c2, w2)
               = Some ((off1, tc1, res1), c1, w1)"
    by (auto simp: offset_pass_def split: flow.splits)
  have "offset_loop c w endpoint a ofield lim off tc res
        = offset_loop c2 w2 endpoint a ofield lim off2 tc2 res2"
    by (subst offset_loop.simps) (simp add: b fl)
  with Suc.IH [OF rest] show ?case by simp
qed

lemma page_loop_passes:
  "passes n (page_pass endpoint a pfield) ((pg, res), c, w) = Some ((pg1, res1), c1, w1)
   \<Longrightarrow> page_loop c w endpoint a pfield pg res = page_loop c1 w1 endpoint a pfield pg1 res1"
proof (induction n arbitrary: pg res c w)
  case 0
  then show ?case by simp
next
  case (Suc n)
  obtain fl pg2 res2 c2 w2 where b:
    "page_body c w endpoint a pfield pg res = (fl, (pg2, res2), c2, w2)"
    by (metis surj_pair)
  with Suc.prems have fl: "fl = Continue"
    and rest: "passes n (page_pass endpoint a pfield) ((pg2, res2), c2, w2) = Some ((pg1, res1), c1, w1)"
    by (auto simp: page_pass_def split: flow.splits)
  have "page_loop c w endpoint a pfield pg res = page_loop c2 w2 endpoint a pfield pg2 res2"
    by (subst page_loop_unfold) (simp add: b fl)
  with Suc.IH [OF rest] show ?case by simp
qed

lemma has_more_loop_passes:
  "passes n (has_more_pass endpoint a hfield) ((it, res), c, w) = Some ((it1, res1), c1, w1)
   \<Longrightarrow> has_more_loop c w endpoint a hfield it res
       = has_more_loop c1 w1 endpoint a hfield it1 res1"
proof (induction n arbitrary: it res c w)
  case 0
  then show ?case by simp
next
  case (Suc n)
  obtain fl it2 res2 c2 w2 where b:
    "has_more_body c w endpoint a hfield it res = (fl, (it2, res2), c2, w2)"
    by (metis surj_pair)
  with Suc.prems have fl: "fl = Continue"
    and rest: "passes n (has_more_pass endpoint a hfield) ((it2, res2), c2, w2)
               = Some ((it1, res1), c1, w1)"
    by (auto simp: has_more_pass_def split: flow.splits)
  have "has_more_loop c w endpoint a hfield it res
        = has_more_loop c2 w2 endpoint a hfield it2 res2"
    by (subst has_more_loop_unfold) (simp add: b fl)
  with Suc.IH [OF rest] show ?case by simp
qed

lemma offset_loop_get_fails:
  "get c (w\<lparr>heap := (heap w)[a := dict_set (heap w ! a) ofield (JInt off)]\<rparr>) endpoint
        (Some ((heap w)[a := dict_set (heap w ! a) ofield (JInt off)] ! a)) = (Inl e, c1, w1)
   \<Longrightarrow> offset_loop c w endpoint a ofield lim off tc res = Some (Inl e, c1, w1)"
  by (subst offset_loop.simps) (simp add: offset_body_def)

lemma page_loop_get_fails:
  "get c (w\<lparr>heap := (heap w)[a := dict_set (heap w ! a) pfield (JInt pg)]\<rparr>) endpoint
        (Some ((heap w)[a := dict_set (heap w ! a) pfield (JInt pg)] ! a)) = (Inl e, c1, w1)
   \<Longrightarrow> page_loop c w endpoint a pfield pg res = (Inl e, c1, w1)"
  by (subst page_loop.simps) simp

lemma has_more_loop_get_fails:
  "get c w endpoint (Some (heap w ! a)) = (Inl e, c1, w1)
   \<Longrightarrow> has_more_loop c w endpoint a hfield it res = (Inl e, c1, w1)"
  by (subst has_more_loop.simps) simp

text \<open>
  Claim C9. A call of \<^verbatim>\<open>get_all\<close>, with any of the three strategies, that has fetched
  \<open>n\<close> pages and gone on after each of them, and whose next fetch raises \<open>e\<close>: the call as
  a whole ends with \<open>e\<close>, and none of the items accumulated from the \<open>n\<close> pages are
  returned. (\<open>passes n\<close> runs the body of the loop \<open>n\<close> times from the state in which
  \<^verbatim>\<open>get_all\<close> enters the loop, on its copy of the parameters.)
\<close>

theorem get_all_propagates_get_error:
  assumes "copy_params ps w = (a, w0)"
  shows "(\<forall>n off tc res cn wn e c1 w1.
            passes n (offset_pass endpoint a (offset_field fs)
                        (dict_get (heap w0 ! a) (limit_field fs) (JInt 50)))
              ((0, JNull, []), c, w0) = Some ((off, tc, res), cn, wn) \<longrightarrow>
            get cn (wn\<lparr>heap := (heap wn)[a := dict_set (heap wn ! a) (offset_field fs) (JInt off)]\<rparr>)
              endpoint
              (Some ((heap wn)[a := dict_set (heap wn ! a) (offset_field fs) (JInt off)] ! a))
              = (Inl e, c1, w1) \<longrightarrow>
            get_all c w endpoint ps ''offset'' fs = Some (Inl e, c1, w1))
       \<and> (\<forall>n pg res cn wn e c1 w1.
            passes n (page_pass endpoint a (page_field fs)) ((1, []), c, w0)
              = Some ((pg, res), cn, wn) \<longrightarrow>
            get cn (wn\<lparr>heap := (heap wn)[a := dict_set (heap wn ! a) (page_field fs) (JInt pg)]\<rparr>)
              endpoint
              (Some ((heap wn)[a := dict_set (heap wn ! a) (page_field fs) (JInt pg)] ! a))
              = (Inl e, c1, w1) \<longrightarrow>
            get_all c w endpoint ps ''page'' fs = Some (Inl e, c1, w1))
       \<and> (\<forall>n it res cn wn e c1 w1.
            passes n (has_more_pass endpoint a (has_more_field fs)) ((0, []), c, w0)
              = Some ((it, res), cn, wn) \<longrightarrow>
            get cn wn endpoint (Some (heap wn ! a)) = (Inl e, c1, w1) \<longrightarrow>
            get_all c w endpoint ps ''has_more'' fs = Some (Inl e, c1, w1))"
proof (intro conjI allI impI)
  fix n off tc res cn wn e c1 w1
  assume p: "passes n (offset_pass endpoint a (offset_field fs)
                        (dict_get (heap w0 ! a) (limit_field fs) (JInt 50)))
              ((0, JNull, []), c, w0) = Some ((off, tc, res), cn, wn)"
    and g: "get cn (wn\<lparr>heap := (heap wn)[a := dict_set (heap wn ! a) (offset_field fs) (JInt off)]\<rparr>)
              endpoint
              (Some ((heap wn)[a := dict_set (heap wn ! a) (offset_field fs) (JInt off)] ! a))
              = (Inl e, c1, w1)"
  have "get_all c w endpoint ps ''offset'' fs
        = offset_loop c w0 endpoint a (offset_field fs)
            (dict_get (heap w0 ! a) (limit_field fs) (JInt 50)) 0 JNull []"
    by (simp add: get_all_def assms)
  also have "\<dots> = offset_loop cn wn endpoint a (offset_field fs)
            (dict_get (heap w0 ! a) (limit_field fs) (JInt 50)) off tc res"
    by (rule offset_loop_passes [OF p])
  also have "\<dots> = Some (Inl e, c1, w1)"
    by (rule offset_loop_get_fails [OF g])
  finally show "get_all c w endpoint ps ''offset'' fs = Some (Inl e, c1, w1)" .
next
  fix n pg res cn wn e c1 w1
  assume p: "passes n (page_pass endpoint a (page_field fs)) ((1, []), c, w0)
              = Some ((pg, res), cn, wn)"
    and g: "get cn (wn\<lparr>heap := (heap wn)[a := dict_set (heap wn ! a) (page_field fs) (JInt pg)]\<rparr>)
              endpoint
              (Some ((heap wn)[a := dict_set (heap wn ! a) (page_field fs) (JInt pg)] ! a))
              = (Inl e, c1, w1)"
  have "get_all c w endpoint ps ''page'' fs = Some (page_loop c w0 endpoint a (page_field fs) 1 [])"
    by (simp add: get_all_def assms)
  also have "page_loop c w0 endpoint a (page_field fs) 1 []
             = page_loop cn wn endpoint a (page_field fs) pg res"
    by (rule page_loop_passes [OF p])
  also have "\<dots> = (Inl e, c1, w1)"
    by (rule page_loop_get_fails [OF g])
  finally show "get_all c w endpoint ps ''page'' fs = Some (Inl e, c1, w1)" .
next
  fix n it res cn wn e c1 w1
  assume p: "passes n (has_more_pass endpoint a (has_more_field fs)) ((0, []), c, w0)
              = Some ((it, res), cn, wn)"
    and g: "get cn wn endpoint (Some (heap wn ! a)) = (Inl e, c1, w1)"
  have "get_all c w endpoint ps ''has_more'' fs
        = Some (has_more_loop c w0 endpoint a (has_more_field fs) 0 [])"
    by (simp add: get_all_def assms)
  also have "has_more_loop c w0 endpoint a (has_more_field fs) 0 []
             = has_more_loop cn wn endpoint a (has_more_field fs) it res"
    by (rule has_more_loop_passes [OF p])
  also have "\<dots> = (Inl e, c1, w1)"
    by (rule has_more_loop_get_fails [OF g])
  finally show "get_all c w endpoint ps ''has_more'' fs = Some (Inl e, c1, w1)" .
qed

theorem get_all_propagates_get_error_witness:
  "get_all api_key_client (failing_world [[(''limit'', JInt 10)]]) ''/orders'' (Some 0) ''offset''
     default_fields
   = Some (Inl (HTTPError 500), api_key_client,
           (failing_world [[(''limit'', JInt 10)]])
             \<lparr>sent := [orders_request [(''limit'', JInt 10), (''offset'', JInt 0)],
                       orders_request [(''limit'', JInt 10), (''offset'', JInt 10)]],
               heap := [[(''limit'', JInt 10)], [(''limit'', JInt 10), (''offset'', JInt 10)]]\<rparr>)
   \<and> get_all api_key_client (failing_world [[(''limit'', JInt 10)]]) ''/orders'' (Some 0) ''page''
       default_fields
     = Some (Inl (HTTPError 500), api_key_client,
             (failing_world [[(''limit'', JInt 10)]])
               \<lparr>sent := [orders_request [(''limit'', JInt 10), (''page'', JInt 1)],
                         orders_request [(''limit'', JInt 10), (''page'', JInt 2)]],
                 heap := [[(''limit'', JInt 10)], [(''limit'', JInt 10), (''page'', JInt 2)]]\<rparr>)
   \<and> get_all api_key_client (failing_world [[(''limit'', JInt 10)]]) ''/orders'' (Some 0)
       ''has_more'' default_fields
     = Some (Inl (HTTPError 500), api_key_client,
             (failing_world [[(''limit'', JInt 10)]])
               \<lparr>sent := [orders_request [(''limit'', JInt 10)],
                         orders_request [(''limit'', JInt 10)]],
                 heap := [[(''limit'', JInt 10)], [(''limit'', JInt 10)]]\<rparr>)"
proof -
  let ?world = "failing_world [[(''limit'', JInt 10)]]"
  let ?start = "?world\<lparr>heap := [[(''limit'', JInt 10)], [(''limit'', JInt 10)]]\<rparr>"
  let ?o1 = "?world\<lparr>sent := [orders_request [(''limit'', JInt 10), (''offset'', JInt 0)]],
                heap := [[(''limit'', JInt 10)], [(''limit'', JInt 10), (''offset'', JInt 0)]]\<rparr>"
  let ?o2 = "?world\<lparr>sent := [orders_request [(''limit'', JInt 10), (''offset'', JInt 0)],
                         orders_request [(''limit'', JInt 10), (''offset'', JInt 10)]],
                heap := [[(''limit'', JInt 10)], [(''limit'', JInt 10), (''offset'', JInt 10)]]\<rparr>"
  let ?p1 = "?world\<lparr>sent := [orders_request [(''limit'', JInt 10), (''page'', JInt 1)]],
                heap := [[(''limit'', JInt 10)], [(''limit'', JInt 10), (''page'', JInt 1)]]\<rparr>"
  let ?p2 = "?world\<lparr>sent := [orders_request [(''limit'', JInt 10), (''page'', JInt 1)],
                         orders_request [(''limit'', JInt 10), (''page'', JInt 2)]],
                heap := [[(''limit'', JInt 10)], [(''limit'', JInt 10), (''page'', JInt 2)]]\<rparr>"
  let ?h1 = "?world\<lparr>sent := [orders_request [(''limit'', JInt 10)]],
                heap := [[(''limit'', JInt 10)], [(''limit'', JInt 10)]]\<rparr>"
  let ?h2 = "?world\<lparr>sent := [orders_request [(''limit'', JInt 10)], orders_request [(''limit'', JInt 10)]],
                heap := [[(''limit'', JInt 10)], [(''limit'', JInt 10)]]\<rparr>"
  have cp: "copy_params (Some 0) ?world = (1, ?start)"
    by (simp add: copy_params_def alloc_def failing_world_def paged_world_def)
  have op: "passes (Suc 0)
              (offset_pass ''/orders'' 1 (offset_field default_fields)
                 (dict_get (heap ?start ! 1) (limit_field default_fields) (JInt 50)))
              ((0, JNull, []), api_key_client, ?start)
            = Some ((10, JNull, [JInt 1]), api_key_client, ?o1)"
    by (simp add: offset_pass_def offset_body_def get_api_key_client dict_set_def dict_update_def
        dict_get_def raises_for_status_def failing_world_def paged_world_def default_fields_def)
  have og: "get api_key_client
              (?o1\<lparr>heap := (heap ?o1)[1 := dict_set (heap ?o1 ! 1) (offset_field default_fields)
                                           (JInt 10)]\<rparr>) ''/orders''
              (Some ((heap ?o1)[1 := dict_set (heap ?o1 ! 1) (offset_field default_fields) (JInt 10)] ! 1))
            = (Inl (HTTPError 500), api_key_client, ?o2)"
    by (simp add: get_api_key_client failing_world_def paged_world_def dict_set_def dict_update_def
        raises_for_status_def default_fields_def)
  have pp: "passes (Suc 0) (page_pass ''/orders'' 1 (page_field default_fields))
              ((1, []), api_key_client, ?start)
            = Some ((2, [JInt 1]), api_key_client, ?p1)"
    by (simp add: page_pass_def page_body_def get_api_key_client dict_set_def dict_update_def
        dict_get_def raises_for_status_def failing_world_def paged_world_def default_fields_def)
  have pg: "get api_key_client
              (?p1\<lparr>heap := (heap ?p1)[1 := dict_set (heap ?p1 ! 1) (page_field default_fields)
                                           (JInt 2)]\<rparr>) ''/orders''
              (Some ((heap ?p1)[1 := dict_set (heap ?p1 ! 1) (page_field default_fields) (JInt 2)] ! 1))
            = (Inl (HTTPError 500), api_key_client, ?p2)"
    by (simp add: get_api_key_client failing_world_def paged_world_def dict_set_def dict_update_def
        raises_for_status_def default_fields_def)
  have hp: "passes (Suc 0) (has_more_pass ''/orders'' 1 (has_more_field default_fields))
              ((0, []), api_key_client, ?start)
            = Some ((1, [JInt 1]), api_key_client, ?h1)"
    by (simp add: has_more_pass_def has_more_body_def get_api_key_client dict_set_def
        dict_update_def dict_get_def raises_for_status_def failing_world_def paged_world_def
        default_fields_def)
  have hg: "get api_key_client ?h1 ''/orders'' (Some (heap ?h1 ! 1))
            = (Inl (HTTPError 500), api_key_client, ?h2)"
    by (simp add: get_api_key_client failing_world_def paged_world_def dict_set_def dict_update_def
        raises_for_status_def default_fields_def)
  note run = get_all_propagates_get_error [OF cp]
  have "get_all api_key_client ?world ''/orders'' (Some 0) ''offset'' default_fields
        = Some (Inl (HTTPError 500), api_key_client, ?o2)"
    by (rule run [THEN conjunct1, rule_format, OF op og])
  moreover have "get_all api_key_client ?world ''/orders'' (Some 0) ''page'' default_fields
        = Some (Inl (HTTPError 500), api_key_client, ?p2)"
    by (rule run [THEN conjunct2, THEN conjunct1, rule_format, OF pp pg])
  moreover have "get_all api_key_client ?world ''/orders'' (Some 0) ''has_more'' default_fields
        = Some (Inl (HTTPError 500), api_key_client, ?h2)"
    by (rule run [THEN conjunct2, THEN conjunct2, rule_format, OF hp hg])
  ultimately show ?thesis by (simp only: simp_thms)
qed

subsection \<open>Unknown pagination strategy\<close>

text \<open>
  Claim C1 does not hold of the code: \<^verbatim>\<open>get_all\<close> has no \<^verbatim>\<open>else\<close> branch after the three
  strategies, so for another tag (here \<^verbatim>\<open>"cursor"\<close>) it sends no request and returns the empty list.
\<close>

theorem get_all_unknown_strategy:
  "get_all c w endpoint ps ''cursor'' fs = Some (Inr [], c, snd (copy_params ps w))
   \<and> sent (snd (copy_params ps w)) = sent w"
  by (simp add: get_all_def copy_params_def alloc_def split: prod.splits option.splits)

end
